theory Spec2Isabelle
  imports Complex_Main
begin

section \<open>JavaScript numbers\<close>

text \<open>
  The program computes with JavaScript numbers. In the frame-rate code and the camera
  geometry, finite values are modelled by the reals (rounding is not modelled there;
  the pointer decay, where the rounding of each product decides what is stored, is
  modelled with binary64 numbers further down). The two non-finite results that the
  frame-rate code can produce are kept apart from the finite ones: a division of a
  positive number by zero gives \<open>PInf\<close>, and \<open>0 / 0\<close> gives \<open>NaN\<close>. Every comparison
  with \<open>NaN\<close> is false.
\<close>

datatype jsnum = Fin real | PInf | NaN

fun js_add :: "jsnum \<Rightarrow> jsnum \<Rightarrow> jsnum" where
  "js_add (Fin a) (Fin b) = Fin (a + b)"
| "js_add NaN _ = NaN"
| "js_add _ NaN = NaN"
| "js_add PInf _ = PInf"
| "js_add _ PInf = PInf"

text \<open>\<open>1000 / d\<close> for a finite \<open>d\<close>.\<close>

definition js_1000_div :: "real \<Rightarrow> jsnum" where
  "js_1000_div d = (if d = 0 then PInf else Fin (1000 / d))"

text \<open>
  \<open>x / n\<close> for an array length \<open>n\<close>. The sum of an empty window is 0, so with
  \<open>n = 0\<close> only \<open>0 / 0\<close> arises; a positive sum over zero would be infinite.
\<close>

fun js_div_len :: "jsnum \<Rightarrow> nat \<Rightarrow> jsnum" where
  "js_div_len NaN n = NaN"
| "js_div_len PInf n = PInf"
| "js_div_len (Fin a) n = (if n = 0 then (if a = 0 then NaN else PInf) else Fin (a / real n))"

fun js_ge :: "jsnum \<Rightarrow> real \<Rightarrow> bool" where
  "js_ge (Fin a) t = (a \<ge> t)"
| "js_ge PInf t = True"
| "js_ge NaN t = False"

fun js_lt :: "jsnum \<Rightarrow> real \<Rightarrow> bool" where
  "js_lt (Fin a) t = (a < t)"
| "js_lt PInf t = False"
| "js_lt NaN t = False"

section \<open>PerturbationEffect (effects/PerturbationEffect.js)\<close>

record vec2 =
  v2x :: real
  v2y :: real

text \<open>
  The object's fields and the \<open>value\<close> slots of its \<open>uniforms\<close>. The uniform
  \<open>uMousePosition\<close> holds the very vector object stored in \<open>mousePosition\<close>, so the two
  are one field here. The texture uniform is an opaque handle and is left out.
\<close>

record perturbation_effect =
  pe_enabled :: bool
  pe_strength :: real
  pe_mousePosition :: vec2
  pe_mouseSpeed :: real
  uTime :: real
  uPerturbStrength :: real
  uMouseSpeed :: real

definition new_PerturbationEffect :: perturbation_effect where
  "new_PerturbationEffect =
     \<lparr> pe_enabled = False, pe_strength = 0.02,
       pe_mousePosition = \<lparr> v2x = 0.5, v2y = 0.5 \<rparr>, pe_mouseSpeed = 0,
       uTime = 0, uPerturbStrength = 0.02, uMouseSpeed = 0 \<rparr>"

definition pe_setMouseInfo :: "vec2 \<Rightarrow> real \<Rightarrow> perturbation_effect \<Rightarrow> perturbation_effect" where
  "pe_setMouseInfo position speed e =
     e\<lparr> pe_mousePosition := position, pe_mouseSpeed := speed, uMouseSpeed := speed \<rparr>"

definition setStrength :: "real \<Rightarrow> perturbation_effect \<Rightarrow> perturbation_effect" where
  "setStrength s e = e\<lparr> pe_strength := s, uPerturbStrength := s \<rparr>"

definition setEnabled :: "bool \<Rightarrow> perturbation_effect \<Rightarrow> perturbation_effect" where
  "setEnabled en e =
     e\<lparr> pe_enabled := en, uPerturbStrength := (if en then pe_strength e else 0) \<rparr>"

definition pe_update :: "real \<Rightarrow> perturbation_effect \<Rightarrow> perturbation_effect" where
  "pe_update elapsedTime e = e\<lparr> uTime := elapsedTime \<rparr>"

section \<open>FPSMonitor and QualityManager (the module imported as performance/QualityManager.js)\<close>

text \<open>
  \<open>fm_onQualityChange\<close> says whether a callback is installed; the callback itself is run
  by the owner of the monitor, which receives the quality the monitor reports.
  \<open>performance.now()\<close> is an input of \<open>fm_update\<close>.
\<close>

record fps_monitor =
  sampleSize :: nat
  samples :: "jsnum list"
  lastTime :: real
  fps :: jsnum
  avgFps :: jsnum
  frameTime :: real
  highQualityThreshold :: real
  lowQualityThreshold :: real
  fm_onQualityChange :: bool
  currentQuality :: string
  qualityChangeDelay :: nat
  framesSinceQualityChange :: nat

definition new_FPSMonitor :: "nat \<Rightarrow> real \<Rightarrow> fps_monitor" where
  "new_FPSMonitor sz now =
     \<lparr> sampleSize = sz, samples = [], lastTime = now,
       fps = Fin 60, avgFps = Fin 60, frameTime = 16.67,
       highQualityThreshold = 55, lowQualityThreshold = 30,
       fm_onQualityChange = False, currentQuality = ''high'',
       qualityChangeDelay = 60, framesSinceQualityChange = 0 \<rparr>"

text \<open>The result carries the argument of the \<open>onQualityChange\<close> call, if one is made.\<close>

definition checkQuality :: "fps_monitor \<Rightarrow> fps_monitor \<times> string option" where
  "checkQuality m =
     (if framesSinceQualityChange m < qualityChangeDelay m then (m, None)
      else
        let newQuality =
          (if js_ge (avgFps m) (highQualityThreshold m) \<and> currentQuality m \<noteq> ''high''
             then ''high''
           else if js_lt (avgFps m) (lowQualityThreshold m) \<and> currentQuality m \<noteq> ''low''
             then ''low''
           else if js_ge (avgFps m) (lowQualityThreshold m) \<and>
                   js_lt (avgFps m) (highQualityThreshold m) \<and>
                   currentQuality m \<noteq> ''medium''
             then ''medium''
           else currentQuality m)
        in if newQuality \<noteq> currentQuality m
           then (m\<lparr> currentQuality := newQuality, framesSinceQualityChange := 0 \<rparr>,
                 if fm_onQualityChange m then Some newQuality else None)
           else (m, None))"

text \<open>\<open>push\<close> followed by at most one \<open>shift\<close>.\<close>

definition push_sample :: "nat \<Rightarrow> jsnum \<Rightarrow> jsnum list \<Rightarrow> jsnum list" where
  "push_sample sz x xs =
     (let ys = xs @ [x] in if length ys > sz then tl ys else ys)"

definition average :: "jsnum list \<Rightarrow> jsnum" where
  "average xs = js_div_len (foldl js_add (Fin 0) xs) (length xs)"

definition fm_update :: "real \<Rightarrow> fps_monitor \<Rightarrow> fps_monitor \<times> string option" where
  "fm_update currentTime m =
     (let ft = currentTime - lastTime m;
          f = js_1000_div ft;
          ss = push_sample (sampleSize m) f (samples m);
          m1 = m\<lparr> frameTime := ft, lastTime := currentTime, fps := f, samples := ss,
                  avgFps := average ss,
                  framesSinceQualityChange := framesSinceQualityChange m + 1 \<rparr>
      in checkQuality m1)"

definition getQuality :: "fps_monitor \<Rightarrow> string" where
  "getQuality m = currentQuality m"

record preset =
  resolutionScale :: real
  bloomEnabled :: bool
  bloomStrength :: real
  sphereSegments :: nat

text \<open>The calls made on the engine, on the post-processing stage and on the console.\<close>

datatype qm_call =
    SetQualityScale real
  | SetBloomEnabled bool
  | SetBloom real real real
  | ConsoleLog string

record quality_manager =
  fpsMonitor :: fps_monitor
  hasPostProcessing :: bool
  currentPreset :: string
  autoQuality :: bool
  qm_calls :: "qm_call list"

definition presets :: "string \<Rightarrow> preset option" where
  "presets q =
     (if q = ''high'' then
        Some \<lparr> resolutionScale = 1.0, bloomEnabled = True, bloomStrength = 0.5, sphereSegments = 128 \<rparr>
      else if q = ''medium'' then
        Some \<lparr> resolutionScale = 0.75, bloomEnabled = True, bloomStrength = 0.3, sphereSegments = 64 \<rparr>
      else if q = ''low'' then
        Some \<lparr> resolutionScale = 0.5, bloomEnabled = False, bloomStrength = 0, sphereSegments = 32 \<rparr>
      else None)"

definition new_QualityManager :: "bool \<Rightarrow> real \<Rightarrow> quality_manager" where
  "new_QualityManager postProcessing now =
     \<lparr> fpsMonitor = (new_FPSMonitor 60 now)\<lparr> fm_onQualityChange := True \<rparr>,
       hasPostProcessing = postProcessing,
       currentPreset = ''high'', autoQuality = True, qm_calls = [] \<rparr>"

definition applyQuality :: "string \<Rightarrow> quality_manager \<Rightarrow> quality_manager" where
  "applyQuality q qm =
     (case presets q of
        None \<Rightarrow> qm
      | Some p \<Rightarrow>
          qm\<lparr> currentPreset := q,
              qm_calls := qm_calls qm
                @ [SetQualityScale (resolutionScale p)]
                @ (if hasPostProcessing qm
                   then SetBloomEnabled (bloomEnabled p)
                        # (if bloomEnabled p then [SetBloom (bloomStrength p) 0.4 0.85] else [])
                   else [])
                @ [ConsoleLog (''Quality changed to: '' @ q)] \<rparr>)"

definition setQuality :: "string \<Rightarrow> quality_manager \<Rightarrow> quality_manager" where
  "setQuality q qm = applyQuality q (qm\<lparr> autoQuality := False \<rparr>)"

definition enableAutoQuality :: "quality_manager \<Rightarrow> quality_manager" where
  "enableAutoQuality qm = qm\<lparr> autoQuality := True \<rparr>"

text \<open>
  \<open>update\<close> runs the monitor; the monitor's callback is \<open>applyQuality\<close>, installed by the
  constructor.
\<close>

definition qm_update :: "real \<Rightarrow> quality_manager \<Rightarrow> quality_manager" where
  "qm_update now qm =
     (case fm_update now (fpsMonitor qm) of
        (m, None) \<Rightarrow> qm\<lparr> fpsMonitor := m \<rparr>
      | (m, Some q) \<Rightarrow> applyQuality q (qm\<lparr> fpsMonitor := m \<rparr>))"

text \<open>Feeding a sequence of clock readings, one per frame.\<close>

fun qm_updates :: "real list \<Rightarrow> quality_manager \<Rightarrow> quality_manager" where
  "qm_updates [] qm = qm"
| "qm_updates (t # ts) qm = qm_updates ts (qm_update t qm)"

fun fm_updates :: "real list \<Rightarrow> fps_monitor \<Rightarrow> fps_monitor" where
  "fm_updates [] m = m"
| "fm_updates (t # ts) m = fm_updates ts (fst (fm_update t m))"

text \<open>The levels as the specification orders them by average frame rate.\<close>

definition threshold_level :: "jsnum \<Rightarrow> string" where
  "threshold_level a =
     (if js_ge a 55 then ''high'' else if js_lt a 30 then ''low'' else ''medium'')"

text \<open>The constants the constructor installs; no method changes them.\<close>

definition configured :: "fps_monitor \<Rightarrow> bool" where
  "configured m \<longleftrightarrow>
     highQualityThreshold m = 55 \<and> lowQualityThreshold m = 30 \<and> qualityChangeDelay m = 60"

text \<open>Frame durations between successive clock readings, starting from \<open>t0\<close>.\<close>

fun durations :: "real \<Rightarrow> real list \<Rightarrow> real list" where
  "durations t0 [] = []"
| "durations t0 (t # ts) = (t - t0) # durations t ts"

text \<open>Clock readings of \<open>n\<close> frames that each last \<open>d\<close> milliseconds.\<close>

definition uniform_times :: "real \<Rightarrow> real \<Rightarrow> nat \<Rightarrow> real list" where
  "uniform_times t0 d n = map (\<lambda>i. t0 + d * real (Suc i)) [0..<n]"

text \<open>
  The reading of the specification's sentence: the mean of the frame durations,
  converted to frames per second.
\<close>

definition fps_of_mean_duration :: "real list \<Rightarrow> real" where
  "fps_of_mean_duration ds = 1000 / (sum_list ds / real (length ds))"

section \<open>Binary64 numbers of the pointer tracker\<close>

text \<open>
  The pointer speed and the pointer velocity are multiplied by a constant on every tick,
  so the rounding of each product matters for what is stored after many ticks. These
  numbers are therefore modelled as the finite binary64 numbers they are: an integer
  significand \<open>mant\<close> of magnitude below \<open>2\<^sup>5\<^sup>3\<close> and an exponent \<open>expo\<close> from \<open>-1074\<close> to
  \<open>971\<close>, with the value \<open>mant * 2\<^sup>e\<^sup>x\<^sup>p\<^sup>o\<close>. A product is the exact product rounded to the
  nearest binary64 number, ties going to the even significand. Only products with a
  constant of magnitude below 1 occur, which cannot overflow and cannot turn a finite
  number into \<open>NaN\<close>; the sign of a zero is not kept.
\<close>

record dbl =
  mant :: int
  expo :: int

definition dval :: "dbl \<Rightarrow> real" where
  "dval d = of_int (mant d) * 2 powi (expo d)"

definition is_double :: "dbl \<Rightarrow> bool" where
  "is_double d \<longleftrightarrow> \<bar>mant d\<bar> < 2 ^ 53 \<and> - 1074 \<le> expo d \<and> expo d \<le> 971"

text \<open>The number of binary digits of a natural number.\<close>

fun bit_length :: "nat \<Rightarrow> nat" where
  "bit_length n = (if n = 0 then 0 else Suc (bit_length (n div 2)))"

declare bit_length.simps [simp del]

text \<open>The integer nearest to \<open>M / 2\<^sup>s\<^sup>h\<close>, the even one of two that are equally near.\<close>

definition round_half_even :: "nat \<Rightarrow> nat \<Rightarrow> nat" where
  "round_half_even M sh =
     (let q = M div 2 ^ sh; r = M mod 2 ^ sh
      in if 2 * r > 2 ^ sh \<or> (2 * r = 2 ^ sh \<and> odd q) then q + 1 else q)"

text \<open>
  The binary64 number nearest to \<open>m * 2\<^sup>e\<close>. The significand keeps 53 binary digits, or
  fewer where the exponent would fall below \<open>-1074\<close> (the subnormal numbers); \<open>dropped\<close>
  is the number of digits that are rounded away. A significand that rounds up to \<open>2\<^sup>5\<^sup>3\<close> is written
  with the next exponent.
\<close>

definition dropped :: "int \<Rightarrow> int \<Rightarrow> int" where
  "dropped m e = max (int (bit_length (nat \<bar>m\<bar>)) - 53) (- 1074 - e)"

definition round64 :: "int \<Rightarrow> int \<Rightarrow> dbl" where
  "round64 m e =
     (let sh = dropped m e
      in if sh \<le> 0 then \<lparr> mant = m, expo = e \<rparr>
         else
           let q = round_half_even (nat \<bar>m\<bar>) (nat sh)
           in if q = 2 ^ 53 then \<lparr> mant = sgn m * 2 ^ 52, expo = e + sh + 1 \<rparr>
              else \<lparr> mant = sgn m * int q, expo = e + sh \<rparr>)"

definition dbl_mul :: "dbl \<Rightarrow> dbl \<Rightarrow> dbl" where
  "dbl_mul a b = round64 (mant a * mant b) (expo a + expo b)"

text \<open>
  The literals \<open>0.75\<close> and \<open>0.9\<close> as binary64 numbers: \<open>0.75\<close> is \<open>3 / 4\<close> exactly, \<open>0.9\<close>
  is the nearest number \<open>8106479329266893 / 2\<^sup>5\<^sup>3\<close>.
\<close>

definition d_0_75 :: dbl where
  "d_0_75 = \<lparr> mant = 3, expo = - 2 \<rparr>"

definition d_0_9 :: dbl where
  "d_0_9 = \<lparr> mant = 8106479329266893, expo = - 53 \<rparr>"

definition d_zero :: dbl where
  "d_zero = \<lparr> mant = 0, expo = 0 \<rparr>"

record dvec2 =
  dx :: dbl
  dy :: dbl

section \<open>Vectors (THREE.Vector2, THREE.Vector3)\<close>

record vec3 =
  v3x :: real
  v3y :: real
  v3z :: real

definition v2_multiplyScalar :: "dbl \<Rightarrow> dvec2 \<Rightarrow> dvec2" where
  "v2_multiplyScalar k v = \<lparr> dx = dbl_mul (dx v) k, dy = dbl_mul (dy v) k \<rparr>"

definition v3_add :: "vec3 \<Rightarrow> vec3 \<Rightarrow> vec3" where
  "v3_add a b = \<lparr> v3x = v3x a + v3x b, v3y = v3y a + v3y b, v3z = v3z a + v3z b \<rparr>"

definition v3_multiplyScalar :: "real \<Rightarrow> vec3 \<Rightarrow> vec3" where
  "v3_multiplyScalar k v = \<lparr> v3x = v3x v * k, v3y = v3y v * k, v3z = v3z v * k \<rparr>"

definition v3_length :: "vec3 \<Rightarrow> real" where
  "v3_length v = sqrt (v3x v * v3x v + v3y v * v3y v + v3z v * v3z v)"

text \<open>\<open>normalize()\<close> is \<open>divideScalar(length() || 1)\<close>.\<close>

definition v3_normalize :: "vec3 \<Rightarrow> vec3" where
  "v3_normalize v =
     v3_multiplyScalar (1 / (if v3_length v = 0 then 1 else v3_length v)) v"

section \<open>Celestial bodies (celestial/CelestialBody.js, celestial/Planet.js)\<close>

text \<open>
  A body is an object; the controllers compare bodies by identity, so a body is referred
  to by its reference and its fields live in a heap. The bodies are those the solar
  system registers: each has had \<open>createMesh\<close> run, so a planet's
  \<open>uniforms.uPerturbStrength\<close> exists. \<open>hasSetPerturbation\<close> tells a \<open>Planet\<close> (which
  defines \<open>setPerturbation\<close>) from the other bodies (the sun, the earth), which do not.
\<close>

type_synonym body_ref = nat

record body =
  radius :: real
  worldPosition :: vec3
  hasSetPerturbation :: bool
  perturbStrength :: real
  b_uPerturbStrength :: real

type_synonym heap = "body_ref \<Rightarrow> body"

definition setPerturbation :: "bool \<Rightarrow> real \<Rightarrow> body \<Rightarrow> body" where
  "setPerturbation en str b =
     (let p = (if en then str else 0)
      in b\<lparr> perturbStrength := p, b_uPerturbStrength := p \<rparr>)"

datatype js_error = TypeError

section \<open>CameraController (interaction/CameraController.js)\<close>

text \<open>
  The tweening library keeps the set of live tweens; \<open>gsap.to\<close> adds one,
  \<open>tween.kill()\<close> removes that one, \<open>gsap.killTweensOf(obj)\<close> removes every tween that
  animates \<open>obj\<close>. A tween is an object, referred to by \<open>tw_id\<close>; it records what it
  animates, the end value, the duration and the \<open>onComplete\<close> closure. The easing curve
  and the \<open>onUpdate\<close> closure (which only re-aims the camera) are left out, as is the
  progress of a tween between its start and its completion.
\<close>

datatype tween_target = CameraPosition | ControlsTarget | OtherTarget nat

datatype on_complete = NoCallback | FocusComplete body_ref | OverviewComplete

record tween =
  tw_id :: nat
  tw_target :: tween_target
  tw_to :: vec3
  tw_duration :: real
  tw_onComplete :: on_complete

record camera_controller =
  cam_fov :: real
  cam_position :: vec3
  controls_target :: vec3
  controls_enabled :: bool
  controls_minDistance :: real
  controls_maxDistance :: real
  isTransitioning :: bool
  focusedBody :: "body_ref option"
  defaultPosition :: vec3
  defaultTarget :: vec3
  focusBaseDistance :: real
  focusPosition :: vec3
  focusTarget :: vec3
  mouseInfluence :: vec2
  targetMouseInfluence :: vec2
  mouseViewEnabled :: bool
  minDistanceMultiplier :: real
  maxDistanceMultiplier :: real
  activeTweens :: "nat list"
  gsap_tweens :: "tween list"
  gsap_next :: nat

definition new_CameraController :: "real \<Rightarrow> camera_controller" where
  "new_CameraController fov =
     \<lparr> cam_fov = fov,
       cam_position = \<lparr> v3x = 0, v3y = 80, v3z = 200 \<rparr>,
       controls_target = \<lparr> v3x = 0, v3y = 0, v3z = 0 \<rparr>,
       controls_enabled = True,
       controls_minDistance = 5,
       controls_maxDistance = 500,
       isTransitioning = False,
       focusedBody = None,
       defaultPosition = \<lparr> v3x = 0, v3y = 80, v3z = 200 \<rparr>,
       defaultTarget = \<lparr> v3x = 0, v3y = 0, v3z = 0 \<rparr>,
       focusBaseDistance = 0,
       focusPosition = \<lparr> v3x = 0, v3y = 0, v3z = 0 \<rparr>,
       focusTarget = \<lparr> v3x = 0, v3y = 0, v3z = 0 \<rparr>,
       mouseInfluence = \<lparr> v2x = 0, v2y = 0 \<rparr>,
       targetMouseInfluence = \<lparr> v2x = 0, v2y = 0 \<rparr>,
       mouseViewEnabled = False,
       minDistanceMultiplier = 0.7,
       maxDistanceMultiplier = 1.5,
       activeTweens = [],
       gsap_tweens = [],
       gsap_next = 0 \<rparr>"

definition degToRad :: "real \<Rightarrow> real" where
  "degToRad degrees = degrees * (pi / 180)"

text \<open>
  The field of view of a perspective camera lies strictly between 0 and 180 degrees;
  the tangent below is then positive and the division is a division of reals.
\<close>

definition calculateFocusDistance :: "camera_controller \<Rightarrow> real \<Rightarrow> real \<Rightarrow> real" where
  "calculateFocusDistance c planetRadius targetScreenRatio =
     (let fovRadians = degToRad (cam_fov c);
          desiredAngularSize = fovRadians * targetScreenRatio;
          distance = planetRadius / tan (desiredAngularSize / 2)
      in distance * 1.3)"

definition tween_kill :: "nat \<Rightarrow> camera_controller \<Rightarrow> camera_controller" where
  "tween_kill i c = c\<lparr> gsap_tweens := filter (\<lambda>tw. tw_id tw \<noteq> i) (gsap_tweens c) \<rparr>"

definition gsap_killTweensOf :: "tween_target \<Rightarrow> camera_controller \<Rightarrow> camera_controller" where
  "gsap_killTweensOf tgt c =
     c\<lparr> gsap_tweens := filter (\<lambda>tw. tw_target tw \<noteq> tgt) (gsap_tweens c) \<rparr>"

definition gsap_to ::
  "tween_target \<Rightarrow> vec3 \<Rightarrow> real \<Rightarrow> on_complete \<Rightarrow> camera_controller \<Rightarrow> nat \<times> camera_controller" where
  "gsap_to tgt dest dur cb c =
     (gsap_next c,
      c\<lparr> gsap_tweens := gsap_tweens c @
             [\<lparr> tw_id = gsap_next c, tw_target = tgt, tw_to = dest,
                tw_duration = dur, tw_onComplete = cb \<rparr>],
          gsap_next := Suc (gsap_next c) \<rparr>)"

definition killAllTweens :: "camera_controller \<Rightarrow> camera_controller" where
  "killAllTweens c =
     gsap_killTweensOf ControlsTarget
       (gsap_killTweensOf CameraPosition
          ((fold tween_kill (activeTweens c) c)\<lparr> activeTweens := [] \<rparr>))"

text \<open>
  With an absent body the method has already cancelled the tweens and written three
  fields when \<open>body.getWorldPosition()\<close> raises.
\<close>

definition cc_focusOnBody ::
  "body_ref option \<Rightarrow> real \<Rightarrow> heap \<Rightarrow> camera_controller \<Rightarrow> js_error option \<times> camera_controller" where
  "cc_focusOnBody body duration h c =
     (let c1 = (killAllTweens c)\<lparr> isTransitioning := True, focusedBody := body,
                                  mouseViewEnabled := False \<rparr>
      in case body of
           None \<Rightarrow> (Some TypeError, c1)
         | Some b \<Rightarrow>
             let targetPosition = worldPosition (h b);
                 dist = calculateFocusDistance c1 (radius (h b)) 0.6;
                 direction = v3_normalize \<lparr> v3x = 0.5, v3y = 0.3, v3z = 1 \<rparr>;
                 cameraTarget = v3_add targetPosition (v3_multiplyScalar dist direction);
                 c2 = c1\<lparr> focusBaseDistance := dist, focusPosition := cameraTarget,
                          focusTarget := targetPosition, controls_enabled := False \<rparr>;
                 (posTween, c3) = gsap_to CameraPosition cameraTarget duration NoCallback c2;
                 c4 = c3\<lparr> activeTweens := activeTweens c3 @ [posTween] \<rparr>;
                 (targetTween, c5) =
                    gsap_to ControlsTarget targetPosition duration (FocusComplete b) c4;
                 c6 = c5\<lparr> activeTweens := activeTweens c5 @ [targetTween] \<rparr>
             in (None, c6))"

definition cc_returnToOverview :: "real \<Rightarrow> camera_controller \<Rightarrow> camera_controller" where
  "cc_returnToOverview duration c =
     (let c1 = (killAllTweens c)\<lparr> isTransitioning := True, focusedBody := None,
                                  mouseViewEnabled := False, controls_enabled := False \<rparr>;
          (posTween, c2) = gsap_to CameraPosition (defaultPosition c1) duration NoCallback c1;
          c3 = c2\<lparr> activeTweens := activeTweens c2 @ [posTween] \<rparr>;
          (targetTween, c4) =
             gsap_to ControlsTarget (defaultTarget c3) duration OverviewComplete c3;
          c5 = c4\<lparr> activeTweens := activeTweens c4 @ [targetTween] \<rparr>
      in c5)"

text \<open>The \<open>onComplete\<close> closures of the two target tweens.\<close>

fun run_onComplete :: "on_complete \<Rightarrow> heap \<Rightarrow> camera_controller \<Rightarrow> camera_controller" where
  "run_onComplete NoCallback h c = c"
| "run_onComplete (FocusComplete b) h c =
     c\<lparr> isTransitioning := False, controls_enabled := True, mouseViewEnabled := True,
        controls_minDistance := radius (h b) * 1.5,
        controls_maxDistance := radius (h b) * 15 \<rparr>"
| "run_onComplete OverviewComplete h c =
     c\<lparr> isTransitioning := False, controls_enabled := True,
        controls_minDistance := 5, controls_maxDistance := 500 \<rparr>"

definition updateMouseView :: "real \<Rightarrow> real \<Rightarrow> camera_controller \<Rightarrow> camera_controller" where
  "updateMouseView mouseX mouseY c =
     (if \<not> mouseViewEnabled c \<or> focusedBody c = None \<or> isTransitioning c then c
      else c\<lparr> targetMouseInfluence := \<lparr> v2x = mouseX, v2y = mouseY \<rparr> \<rparr>)"

definition isFocused :: "camera_controller \<Rightarrow> bool" where
  "isFocused c \<longleftrightarrow> focusedBody c \<noteq> None"

text \<open>The live tweens that animate the camera position or the controls target.\<close>

definition camera_tweens :: "camera_controller \<Rightarrow> tween list" where
  "camera_tweens c =
     filter (\<lambda>tw. tw_target tw = CameraPosition \<or> tw_target tw = ControlsTarget)
       (gsap_tweens c)"

text \<open>Tween references are handed out in increasing order.\<close>

definition tweens_allocated :: "camera_controller \<Rightarrow> bool" where
  "tweens_allocated c \<longleftrightarrow> list_all (\<lambda>tw. tw_id tw < gsap_next c) (gsap_tweens c)"

section \<open>InteractionController (second class in interaction/CameraController.js)\<close>

datatype interaction_state = GLOBAL | TRANSITION | FOCUS

datatype notification =
    StateChange interaction_state "body_ref option"
  | BodySelect body_ref
  | BodyHover "body_ref option"

text \<open>The two closures handed to \<open>setTimeout\<close>.\<close>

datatype timer_callback = FocusTimeout body_ref | GlobalTimeout

text \<open>
  \<open>onStateChange\<close>, \<open>onBodySelect\<close> and \<open>onBodyHover\<close> say whether the host installed the
  callback; a call of an installed callback is recorded in \<open>notifications\<close>.
  \<open>timers\<close> holds the pending \<open>setTimeout\<close> callbacks with the time (in milliseconds) at
  which each is due, in the order of their registration. \<open>bodies\<close> is the heap of the
  solar system's bodies.
\<close>

record interaction_controller =
  ic_state :: interaction_state
  selectedBody :: "body_ref option"
  hoveredBody :: "body_ref option"
  mouseVelocity :: dvec2
  mouseSpeed :: dbl
  onStateChange :: bool
  onBodySelect :: bool
  onBodyHover :: bool
  cameraController :: camera_controller
  bodies :: heap
  timers :: "(real \<times> timer_callback) list"
  notifications :: "notification list"

definition new_InteractionController :: "heap \<Rightarrow> camera_controller \<Rightarrow> interaction_controller" where
  "new_InteractionController h cc =
     \<lparr> ic_state = GLOBAL, selectedBody = None, hoveredBody = None,
       mouseVelocity = \<lparr> dx = d_zero, dy = d_zero \<rparr>, mouseSpeed = d_zero,
       onStateChange = False, onBodySelect = False, onBodyHover = False,
       cameraController = cc, bodies = h, timers = [], notifications = [] \<rparr>"

definition call_onStateChange ::
  "interaction_state \<Rightarrow> body_ref option \<Rightarrow> interaction_controller \<Rightarrow> interaction_controller" where
  "call_onStateChange st b s =
     (if onStateChange s then s\<lparr> notifications := notifications s @ [StateChange st b] \<rparr>
      else s)"

definition call_onBodySelect :: "body_ref \<Rightarrow> interaction_controller \<Rightarrow> interaction_controller" where
  "call_onBodySelect b s =
     (if onBodySelect s then s\<lparr> notifications := notifications s @ [BodySelect b] \<rparr> else s)"

definition setTimeout ::
  "timer_callback \<Rightarrow> real \<Rightarrow> real \<Rightarrow> interaction_controller \<Rightarrow> interaction_controller" where
  "setTimeout cb delay now s = s\<lparr> timers := timers s @ [(now + delay, cb)] \<rparr>"

text \<open>
  \<open>focusOnBody\<close> has no check of its argument: with an absent body it has written
  \<open>state\<close> and \<open>selectedBody\<close> when the read of \<open>body.setPerturbation\<close> raises.
  \<open>now\<close> is the time of the call.
\<close>

definition focusOnBody ::
  "body_ref option \<Rightarrow> real \<Rightarrow> interaction_controller \<Rightarrow> js_error option \<times> interaction_controller" where
  "focusOnBody body now s =
     (let s1 = s\<lparr> ic_state := TRANSITION, selectedBody := body \<rparr>
      in case body of
           None \<Rightarrow> (Some TypeError, s1)
         | Some b \<Rightarrow>
             let s2 = (if hasSetPerturbation (bodies s1 b)
                       then s1\<lparr> bodies := (bodies s1)(b := setPerturbation True 0.15 (bodies s1 b)) \<rparr>
                       else s1);
                 s3 = call_onStateChange TRANSITION (Some b) s2;
                 (err, cc) = cc_focusOnBody (Some b) 1.2 (bodies s3) (cameraController s3);
                 s4 = s3\<lparr> cameraController := cc \<rparr>
             in if err \<noteq> None then (err, s4)
                else (None, setTimeout (FocusTimeout b) 1200 now s4))"

definition returnToGlobal :: "real \<Rightarrow> interaction_controller \<Rightarrow> interaction_controller" where
  "returnToGlobal now s =
     (let s1 = (case selectedBody s of
                  None \<Rightarrow> s
                | Some b \<Rightarrow>
                    if hasSetPerturbation (bodies s b)
                    then s\<lparr> bodies := (bodies s)(b := setPerturbation False 0.1 (bodies s b)) \<rparr>
                    else s);
          s2 = s1\<lparr> ic_state := TRANSITION \<rparr>;
          s3 = call_onStateChange TRANSITION None s2;
          s4 = s3\<lparr> cameraController := cc_returnToOverview 1.2 (cameraController s3) \<rparr>
      in setTimeout GlobalTimeout 1200 now s4)"

text \<open>Running a timer callback.\<close>

fun fire_timer :: "timer_callback \<Rightarrow> interaction_controller \<Rightarrow> interaction_controller" where
  "fire_timer (FocusTimeout b) s =
     (if selectedBody s = Some b
      then call_onBodySelect b (call_onStateChange FOCUS (Some b) (s\<lparr> ic_state := FOCUS \<rparr>))
      else s)"
| "fire_timer GlobalTimeout s =
     call_onStateChange GLOBAL None (s\<lparr> ic_state := GLOBAL, selectedBody := None \<rparr>)"

text \<open>
  The event loop reaching time \<open>t\<close>: the pending callbacks that are due run, earliest
  first and in registration order among those due at the same time; the others stay
  pending. No callback of this controller registers a timer.
\<close>

definition advance :: "real \<Rightarrow> interaction_controller \<Rightarrow> interaction_controller" where
  "advance t s =
     fold fire_timer
       (map snd (sort_key fst (filter (\<lambda>p. fst p \<le> t) (timers s))))
       (s\<lparr> timers := filter (\<lambda>p. \<not> fst p \<le> t) (timers s) \<rparr>)"

text \<open>The \<open>contextmenu\<close> listener, the \<open>keydown\<close> listener and the \<open>click\<close> listener.\<close>

definition onContextMenu :: "real \<Rightarrow> interaction_controller \<Rightarrow> interaction_controller" where
  "onContextMenu now s = (if ic_state s = FOCUS then returnToGlobal now s else s)"

definition onKeyDown :: "string \<Rightarrow> real \<Rightarrow> interaction_controller \<Rightarrow> interaction_controller" where
  "onKeyDown key now s =
     (if key = ''Escape''
      then (if ic_state s = FOCUS \<or> ic_state s = TRANSITION then returnToGlobal now s else s)
      else s)"

text \<open>
  \<open>intersects\<close> is the result of the ray cast: for each hit mesh, nearest first, the body
  in its \<open>userData.celestialBody\<close>, if any.
\<close>

definition onClick ::
  "body_ref option list \<Rightarrow> real \<Rightarrow> interaction_controller \<Rightarrow> js_error option \<times> interaction_controller" where
  "onClick intersects now s =
     (if ic_state s = GLOBAL
      then (case intersects of
              [] \<Rightarrow> (None, s)
            | hit # _ \<Rightarrow>
                (case hit of None \<Rightarrow> (None, s) | Some b \<Rightarrow> focusOnBody (Some b) now s))
      else (None, s))"

definition ic_update :: "real \<Rightarrow> interaction_controller \<Rightarrow> interaction_controller" where
  "ic_update deltaTime s =
     s\<lparr> mouseVelocity := v2_multiplyScalar d_0_9 (mouseVelocity s),
        mouseSpeed := dbl_mul (mouseSpeed s) d_0_75 \<rparr>"

text \<open>\<open>k\<close> simulation ticks with no pointer event between them.\<close>

definition ticks :: "nat \<Rightarrow> interaction_controller \<Rightarrow> interaction_controller" where
  "ticks k s = ((ic_update (1 / 60)) ^^ k) s"

section \<open>Scenarios\<close>

text \<open>
  A planet as its constructor and \<open>createMesh\<close> leave it, a solar system of such planets,
  and a controller wired as the application does it (the application installs
  \<open>onStateChange\<close> and \<open>onBodyHover\<close>; its camera has a field of view of 60 degrees).
\<close>

definition planet :: "real \<Rightarrow> body" where
  "planet r =
     \<lparr> radius = r, worldPosition = \<lparr> v3x = 0, v3y = 0, v3z = 0 \<rparr>,
       hasSetPerturbation = True, perturbStrength = 0.1, b_uPerturbStrength = 0.1 \<rparr>"

definition demo_heap :: heap where
  "demo_heap = (\<lambda>_. planet 1)"

definition demo_controller :: interaction_controller where
  "demo_controller =
     (new_InteractionController demo_heap (new_CameraController 60))
       \<lparr> onStateChange := True, onBodyHover := True \<rparr>"

text \<open>
  A focus request for \<open>a\<close> at time \<open>t0\<close>, the event loop reaching \<open>t1\<close>, and a focus request
  for \<open>b\<close> at \<open>t1\<close>.
\<close>

definition refocus ::
  "body_ref \<Rightarrow> real \<Rightarrow> body_ref \<Rightarrow> real \<Rightarrow> interaction_controller
     \<Rightarrow> js_error option \<times> interaction_controller" where
  "refocus a t0 b t1 s =
     focusOnBody (Some b) t1 (advance t1 (snd (focusOnBody (Some a) t0 s)))"

text \<open>
  The binary64 number nearest to \<open>0.1\<close>, the smallest positive binary64 number, and
  the controller with a given pointer speed and velocity.
\<close>

definition d_0_1 :: dbl where
  "d_0_1 = \<lparr> mant = 7205759403792794, expo = - 56 \<rparr>"

definition d_min :: dbl where
  "d_min = \<lparr> mant = 1, expo = - 1074 \<rparr>"

definition moving :: "dbl \<Rightarrow> dbl \<Rightarrow> dbl \<Rightarrow> interaction_controller" where
  "moving sp vx vy =
     demo_controller\<lparr> mouseSpeed := sp, mouseVelocity := \<lparr> dx = vx, dy = vy \<rparr> \<rparr>"

text \<open>A notification that names the body \<open>a\<close> as the subject of a state change or selection.\<close>

fun reports :: "body_ref \<Rightarrow> notification \<Rightarrow> bool" where
  "reports a (StateChange st bo) = (bo = Some a)"
| "reports a (BodySelect x) = (x = a)"
| "reports a (BodyHover bo) = False"

section \<open>Properties of the quality control loop and of the perturbation effect\<close>

lemma checkQuality_dwell:
  "framesSinceQualityChange m < qualityChangeDelay m \<Longrightarrow> checkQuality m = (m, None)"
  by (simp add: checkQuality_def)

lemma fm_update_dwell:
  assumes "framesSinceQualityChange m + 1 < qualityChangeDelay m"
  shows "fm_update t m =
    (m\<lparr> frameTime := t - lastTime m, lastTime := t, fps := js_1000_div (t - lastTime m),
        samples := push_sample (sampleSize m) (js_1000_div (t - lastTime m)) (samples m),
        avgFps := average (push_sample (sampleSize m) (js_1000_div (t - lastTime m)) (samples m)),
        framesSinceQualityChange := framesSinceQualityChange m + 1 \<rparr>, None)"
  using assms by (simp add: fm_update_def Let_def checkQuality_dwell)

lemma fm_update_config:
  "highQualityThreshold (fst (fm_update t m)) = highQualityThreshold m"
  "lowQualityThreshold (fst (fm_update t m)) = lowQualityThreshold m"
  "qualityChangeDelay (fst (fm_update t m)) = qualityChangeDelay m"
  "sampleSize (fst (fm_update t m)) = sampleSize m"
  "lastTime (fst (fm_update t m)) = t"
  "samples (fst (fm_update t m)) = push_sample (sampleSize m) (js_1000_div (t - lastTime m)) (samples m)"
  "avgFps (fst (fm_update t m)) = average (samples (fst (fm_update t m)))"
  "fm_onQualityChange (fst (fm_update t m)) = fm_onQualityChange m"
  by (simp_all add: fm_update_def checkQuality_def Let_def)

lemma fm_updates_dwell:
  "framesSinceQualityChange m + length ts < qualityChangeDelay m \<Longrightarrow>
   currentQuality (fm_updates ts m) = currentQuality m \<and>
   framesSinceQualityChange (fm_updates ts m) = framesSinceQualityChange m + length ts"
proof (induction ts arbitrary: m)
  case Nil
  then show ?case by simp
next
  case (Cons t ts)
  from Cons.prems have d: "framesSinceQualityChange m + 1 < qualityChangeDelay m" by simp
  let ?m1 = "fst (fm_update t m)"
  have q1: "currentQuality ?m1 = currentQuality m"
    and f1: "framesSinceQualityChange ?m1 = framesSinceQualityChange m + 1"
    and d1: "qualityChangeDelay ?m1 = qualityChangeDelay m"
    by (simp_all add: fm_update_dwell[OF d])
  have "framesSinceQualityChange ?m1 + length ts < qualityChangeDelay ?m1"
    using Cons.prems f1 d1 by simp
  from Cons.IH[OF this] show ?case using q1 f1 by simp
qed

lemma checkQuality_fields:
  "avgFps (fst (checkQuality m)) = avgFps m"
  by (simp add: checkQuality_def Let_def)

lemma checkQuality_change:
  assumes "configured m" and "currentQuality (fst (checkQuality m)) \<noteq> currentQuality m"
  shows "framesSinceQualityChange (fst (checkQuality m)) = 0 \<and>
         currentQuality (fst (checkQuality m)) = threshold_level (avgFps m)"
proof (cases "avgFps m")
  case (Fin a)
  with assms show ?thesis
    by (auto simp add: checkQuality_def Let_def configured_def threshold_level_def
             split: if_splits)
next
  case PInf
  with assms show ?thesis
    by (auto simp add: checkQuality_def Let_def configured_def threshold_level_def
             split: if_splits)
next
  case NaN
  with assms show ?thesis
    by (auto simp add: checkQuality_def Let_def configured_def threshold_level_def
             split: if_splits)
qed

lemma fm_update_as_check:
  "fm_update t m = checkQuality
     (m\<lparr> frameTime := t - lastTime m, lastTime := t, fps := js_1000_div (t - lastTime m),
        samples := push_sample (sampleSize m) (js_1000_div (t - lastTime m)) (samples m),
        avgFps := average (push_sample (sampleSize m) (js_1000_div (t - lastTime m)) (samples m)),
        framesSinceQualityChange := framesSinceQualityChange m + 1 \<rparr>)"
  by (simp add: fm_update_def Let_def)

lemma fm_update_change:
  assumes c: "configured m" and ch: "currentQuality (fst (fm_update t m)) \<noteq> currentQuality m"
  shows "framesSinceQualityChange (fst (fm_update t m)) = 0 \<and>
         currentQuality (fst (fm_update t m)) = threshold_level (avgFps (fst (fm_update t m)))"
proof -
  let ?m1 = "m\<lparr> frameTime := t - lastTime m, lastTime := t, fps := js_1000_div (t - lastTime m),
        samples := push_sample (sampleSize m) (js_1000_div (t - lastTime m)) (samples m),
        avgFps := average (push_sample (sampleSize m) (js_1000_div (t - lastTime m)) (samples m)),
        framesSinceQualityChange := framesSinceQualityChange m + 1 \<rparr>"
  have c1: "configured ?m1" using c by (simp add: configured_def)
  have ch1: "currentQuality (fst (checkQuality ?m1)) \<noteq> currentQuality ?m1"
    using ch by (simp add: fm_update_as_check)
  from checkQuality_change[OF c1 ch1] show ?thesis
    by (simp add: fm_update_as_check checkQuality_fields)
qed

text \<open>
  Claim C5 (quality hysteresis). On a frame where fewer than 60 frames have elapsed since
  the previous change of level (the counter, incremented for this frame, is below 60), the
  level stays as it is and no callback is made, whatever the clock reading and hence the
  average; the same holds along any run of frames that keeps the counter below 60. When
  an update does change the level, the counter is back at zero, and the new level is the
  one the thresholds give for the average of that frame: at least 55 is high, below 30 is
  low, otherwise medium.
\<close>

theorem quality_hysteresis:
  "configured m \<longrightarrow>
     (framesSinceQualityChange m + 1 < 60 \<longrightarrow>
        currentQuality (fst (fm_update t m)) = currentQuality m \<and> snd (fm_update t m) = None) \<and>
     (framesSinceQualityChange m + length ts < 60 \<longrightarrow>
        currentQuality (fm_updates ts m) = currentQuality m) \<and>
     (currentQuality (fst (fm_update t m)) \<noteq> currentQuality m \<longrightarrow>
        framesSinceQualityChange (fst (fm_update t m)) = 0 \<and>
        currentQuality (fst (fm_update t m)) = threshold_level (avgFps (fst (fm_update t m))))"
proof (intro impI conjI)
  assume c: "configured m" and "framesSinceQualityChange m + 1 < 60"
  then have d: "framesSinceQualityChange m + 1 < qualityChangeDelay m"
    by (simp add: configured_def)
  show "currentQuality (fst (fm_update t m)) = currentQuality m"
    by (simp add: fm_update_dwell[OF d])
  show "snd (fm_update t m) = None"
    by (simp add: fm_update_dwell[OF d])
next
  assume c: "configured m" and "framesSinceQualityChange m + length ts < 60"
  then have "framesSinceQualityChange m + length ts < qualityChangeDelay m"
    by (simp add: configured_def)
  from fm_updates_dwell[OF this] show "currentQuality (fm_updates ts m) = currentQuality m"
    by simp
next
  assume c: "configured m" and ch: "currentQuality (fst (fm_update t m)) \<noteq> currentQuality m"
  from fm_update_change[OF c ch]
  show "framesSinceQualityChange (fst (fm_update t m)) = 0"
    and "currentQuality (fst (fm_update t m)) = threshold_level (avgFps (fst (fm_update t m)))"
    by simp_all
qed

text \<open>
  Claim C10 (enable/disable round trip), as the code has it. Disabling an effect sets
  the uniform \<open>uPerturbStrength\<close> to 0 and leaves the stored strength as it was; enabling
  it again sets the uniform to exactly the stored strength, so that disabling first
  leaves no trace in the result of enabling. Disabling and then enabling gives the
  uniform its former value for an effect whose uniform carried the stored strength (a
  new effect, or one after \<open>setStrength\<close> or \<open>setEnabled(true)\<close>).
\<close>

theorem perturbation_round_trip:
  "uPerturbStrength (setEnabled False e) = 0 \<and>
   pe_strength (setEnabled False e) = pe_strength e \<and>
   uPerturbStrength (setEnabled True (setEnabled False e)) = pe_strength e \<and>
   setEnabled True (setEnabled False e) = setEnabled True e \<and>
   (uPerturbStrength e = pe_strength e \<longrightarrow>
      uPerturbStrength (setEnabled True (setEnabled False e)) = uPerturbStrength e)"
  by (simp add: setEnabled_def)

text \<open>
  On an effect that is disabled already, disabling and then enabling is not the
  identity on the uniform: it was 0 and becomes the stored strength \<open>0.02\<close>.
\<close>

theorem round_trip_on_disabled_counterexample:
  "uPerturbStrength (setEnabled False new_PerturbationEffect) = 0 \<and>
   uPerturbStrength
     (setEnabled True (setEnabled False (setEnabled False new_PerturbationEffect))) = 0.02 \<and>
   uPerturbStrength
     (setEnabled True (setEnabled False (setEnabled False new_PerturbationEffect)))
     \<noteq> uPerturbStrength (setEnabled False new_PerturbationEffect)"
  by (simp add: setEnabled_def new_PerturbationEffect_def)

theorem quality_hysteresis_witness:
  "configured (new_FPSMonitor 60 0) \<and>
   framesSinceQualityChange (new_FPSMonitor 60 0) + 1 < 60 \<and>
   currentQuality (fst (fm_update 100 (new_FPSMonitor 60 0))) = ''high'' \<and>
   snd (fm_update 100 (new_FPSMonitor 60 0)) = None \<and>
   framesSinceQualityChange (new_FPSMonitor 60 0) + length [100, 200, 300 :: real] < 60 \<and>
   currentQuality (fm_updates [100, 200, 300] (new_FPSMonitor 60 0)) = ''high'' \<and>
   configured ((new_FPSMonitor 60 0)\<lparr> framesSinceQualityChange := 59 \<rparr>) \<and>
   currentQuality (fst (fm_update 100 ((new_FPSMonitor 60 0)\<lparr> framesSinceQualityChange := 59 \<rparr>)))
     \<noteq> currentQuality ((new_FPSMonitor 60 0)\<lparr> framesSinceQualityChange := 59 \<rparr>) \<and>
   framesSinceQualityChange
     (fst (fm_update 100 ((new_FPSMonitor 60 0)\<lparr> framesSinceQualityChange := 59 \<rparr>))) = 0 \<and>
   threshold_level
     (avgFps (fst (fm_update 100 ((new_FPSMonitor 60 0)\<lparr> framesSinceQualityChange := 59 \<rparr>))))
     = ''low''"
proof -
  let ?m = "new_FPSMonitor 60 0"
  let ?m2 = "(new_FPSMonitor 60 0)\<lparr> framesSinceQualityChange := 59 \<rparr>"
  have c1: "configured ?m" and c2: "configured ?m2"
    by (simp_all add: configured_def new_FPSMonitor_def)
  have f1: "framesSinceQualityChange ?m + 1 < 60"
    and f2: "framesSinceQualityChange ?m + length [100, 200, 300 :: real] < 60"
    and q: "currentQuality ?m = ''high''"
    by (simp_all add: new_FPSMonitor_def)
  have ch: "currentQuality (fst (fm_update 100 ?m2)) \<noteq> currentQuality ?m2"
    by (simp add: new_FPSMonitor_def fm_update_def checkQuality_def push_sample_def
          average_def js_1000_div_def Let_def)
  have lv: "currentQuality (fst (fm_update 100 ?m2)) = ''low''"
    by (simp add: new_FPSMonitor_def fm_update_def checkQuality_def push_sample_def
          average_def js_1000_div_def Let_def)
  from quality_hysteresis[of ?m 100 "[100, 200, 300]"] c1 f1 f2 q
  have a: "currentQuality (fst (fm_update 100 ?m)) = ''high''"
    and b: "snd (fm_update 100 ?m) = None"
    and c: "currentQuality (fm_updates [100, 200, 300] ?m) = ''high''"
    by simp_all
  from quality_hysteresis[of ?m2 100 "[]"] c2 ch lv
  have d: "framesSinceQualityChange (fst (fm_update 100 ?m2)) = 0"
    and e: "threshold_level (avgFps (fst (fm_update 100 ?m2))) = ''low''"
    by simp_all
  from c1 c2 f1 f2 ch a b c d e show ?thesis by simp
qed

theorem perturbation_round_trip_witness:
  "uPerturbStrength new_PerturbationEffect = pe_strength new_PerturbationEffect \<and>
   uPerturbStrength (setEnabled False new_PerturbationEffect) = 0 \<and>
   uPerturbStrength (setEnabled True (setEnabled False new_PerturbationEffect)) = 0.02"
proof -
  have h: "uPerturbStrength new_PerturbationEffect = pe_strength new_PerturbationEffect"
    and v: "uPerturbStrength new_PerturbationEffect = 0.02"
    by (simp_all add: new_PerturbationEffect_def)
  have s: "pe_strength new_PerturbationEffect = 0.02"
    by (simp add: new_PerturbationEffect_def)
  from perturbation_round_trip[of new_PerturbationEffect] h
  have a: "uPerturbStrength (setEnabled False new_PerturbationEffect) = 0"
    and b: "uPerturbStrength (setEnabled True (setEnabled False new_PerturbationEffect))
              = uPerturbStrength new_PerturbationEffect"
    by blast+
  from h a b v show ?thesis by simp
qed

section \<open>The rolling window\<close>

lemma push_sample_drop:
  "length xs \<le> n \<Longrightarrow> push_sample n x xs = drop (Suc (length xs) - n) (xs @ [x])"
  by (cases xs) (auto simp add: push_sample_def Let_def Suc_diff_le)

lemma durations_length [simp]: "length (durations t0 ts) = length ts"
  by (induction ts arbitrary: t0) simp_all

lemma window_step:
  assumes "length xs \<le> n"
  shows "drop (length (drop (Suc (length xs) - n) (xs @ [x])) + k - n)
           (drop (Suc (length xs) - n) (xs @ [x]) @ rest)
         = drop (length xs + Suc k - n) (xs @ x # rest)"
proof (cases "length xs < n")
  case True
  then have "Suc (length xs) - n = 0" by simp
  then show ?thesis by simp
next
  case False
  with assms have e: "length xs = n" by simp
  then have b: "Suc (length xs) - n = 1" by simp
  have t: "drop 1 (xs @ [x]) @ rest = drop 1 (xs @ x # rest)"
    by (cases xs) simp_all
  have l: "length (drop 1 (xs @ [x])) = n" using e by simp
  have "drop (length (drop 1 (xs @ [x])) + k - n) (drop 1 (xs @ [x]) @ rest)
        = drop k (drop 1 (xs @ x # rest))"
    by (simp only: l t) simp
  also have "\<dots> = drop (length xs + Suc k - n) (xs @ x # rest)"
    using e by (simp only: drop_drop) simp
  finally show ?thesis by (simp only: b)
qed

lemma fm_updates_samples:
  "length (samples m) \<le> sampleSize m \<Longrightarrow>
   samples (fm_updates ts m) =
     drop (length (samples m) + length ts - sampleSize m)
       (samples m @ map js_1000_div (durations (lastTime m) ts)) \<and>
   sampleSize (fm_updates ts m) = sampleSize m"
proof (induction ts arbitrary: m)
  case Nil
  then show ?case by simp
next
  case (Cons t ts)
  let ?m1 = "fst (fm_update t m)"
  let ?x = "js_1000_div (t - lastTime m)"
  let ?rest = "map js_1000_div (durations t ts)"
  have s1: "samples ?m1 = drop (Suc (length (samples m)) - sampleSize m) (samples m @ [?x])"
    using Cons.prems by (simp add: fm_update_config push_sample_drop)
  have n1: "sampleSize ?m1 = sampleSize m" and l1: "lastTime ?m1 = t"
    by (simp_all add: fm_update_config)
  have len1: "length (samples ?m1) \<le> sampleSize ?m1"
    using Cons.prems by (simp add: s1 n1)
  from Cons.IH[OF len1]
  have i: "samples (fm_updates ts ?m1) =
          drop (length (samples ?m1) + length ts - sampleSize m) (samples ?m1 @ ?rest)"
    and n2: "sampleSize (fm_updates ts ?m1) = sampleSize m"
    by (simp_all add: n1 l1)
  have "samples (fm_updates ts ?m1) =
          drop (length (samples m) + Suc (length ts) - sampleSize m) (samples m @ ?x # ?rest)"
    unfolding i s1 using Cons.prems by (rule window_step)
  then show ?case using n2 by simp
qed

lemma fm_updates_avg:
  "ts \<noteq> [] \<Longrightarrow> avgFps (fm_updates ts m) = average (samples (fm_updates ts m))"
proof (induction ts arbitrary: m)
  case Nil
  then show ?case by simp
next
  case (Cons t ts)
  show ?case
  proof (cases ts)
    case Nil
    then show ?thesis by (simp add: fm_update_config)
  next
    case (Cons u us)
    with Cons.IH[of "fst (fm_update t m)"] show ?thesis by simp
  qed
qed

lemma foldl_js_add_fps:
  "0 \<notin> set ds \<Longrightarrow>
   foldl js_add (Fin a) (map js_1000_div ds) = Fin (a + sum_list (map (\<lambda>d. 1000 / d) ds))"
  by (induction ds arbitrary: a) (auto simp add: js_1000_div_def algebra_simps)

lemma average_fps:
  "0 \<notin> set ds \<Longrightarrow> ds \<noteq> [] \<Longrightarrow>
   average (map js_1000_div ds) = Fin (sum_list (map (\<lambda>d. 1000 / d) ds) / real (length ds))"
  by (simp add: average_def foldl_js_add_fps)

lemma uniform_times_Suc:
  "uniform_times t0 d (Suc n) = (t0 + d) # uniform_times (t0 + d) d n"
proof -
  have "[0..<Suc n] = 0 # map Suc [0..<n]"
    by (simp add: upt_conv_Cons map_Suc_upt del: upt_Suc)
  then have "uniform_times t0 d (Suc n) =
      (t0 + d) # map (\<lambda>i. t0 + d * real (Suc (Suc i))) [0..<n]"
    by (simp add: uniform_times_def comp_def del: upt_Suc)
  also have "map (\<lambda>i. t0 + d * real (Suc (Suc i))) [0..<n] = uniform_times (t0 + d) d n"
    by (simp add: uniform_times_def algebra_simps)
  finally show ?thesis .
qed

lemma durations_uniform: "durations t0 (uniform_times t0 d n) = replicate n d"
proof (induction n arbitrary: t0)
  case 0
  then show ?case by (simp add: uniform_times_def)
next
  case (Suc n)
  then show ?case by (simp add: uniform_times_Suc)
qed

lemma uniform_times_length [simp]: "length (uniform_times t0 d n) = n"
  by (simp add: uniform_times_def)

lemma sum_list_replicate_const: "sum_list (replicate k (c::real)) = real k * c"
  by (induction k) (simp_all add: algebra_simps)

lemma new_window:
  "samples (fm_updates ts (new_FPSMonitor n t0)) =
     drop (length ts - n) (map js_1000_div (durations t0 ts))"
  using fm_updates_samples[of "new_FPSMonitor n t0" ts]
  by (simp add: new_FPSMonitor_def)

lemma uniform_avg:
  assumes "d \<noteq> 0" "0 < n" "0 < k"
  shows "avgFps (fm_updates (uniform_times t0 d k) (new_FPSMonitor n t0)) = Fin (1000 / d)"
proof -
  let ?ts = "uniform_times t0 d k"
  have ne: "?ts \<noteq> []" using assms by (cases k) (simp_all add: uniform_times_Suc)
  have w: "samples (fm_updates ?ts (new_FPSMonitor n t0)) = map js_1000_div (replicate (min k n) d)"
    by (simp add: new_window durations_uniform drop_map min_def)
  have pos: "0 < min k n" using assms by simp
  have "average (map js_1000_div (replicate (min k n) d)) =
        Fin (sum_list (map (\<lambda>d. 1000 / d) (replicate (min k n) d)) / real (length (replicate (min k n) d)))"
    using assms pos by (intro average_fps) auto
  also have "\<dots> = Fin (1000 / d)"
    using pos by (simp add: sum_list_replicate_const)
  finally show ?thesis by (simp add: fm_updates_avg[OF ne] w)
qed


text \<open>
  Claim C6 (rolling window), as the code has it. The window holds one frames-per-second
  sample per frame (1000 divided by the frame's duration), not the durations: after
  any sequence of updates of a new monitor it consists of the most recent samples, at
  most \<open>sampleSize\<close> of them, the oldest having been evicted, so its length never
  exceeds \<open>sampleSize\<close>. The reported average is the arithmetic mean of the samples in
  the window, that is, the mean of the per-frame rates. Feeding \<open>sampleSize\<close> frames of
  16.67 ms each gives an average of 1000 / 16.67, within 0.1 of 60, and one further
  frame leaves the window at length \<open>sampleSize\<close>.
\<close>

theorem rolling_window:
  "samples (fm_updates ts (new_FPSMonitor n t0)) =
     drop (length ts - n) (map js_1000_div (durations t0 ts)) \<and>
   length (samples (fm_updates ts (new_FPSMonitor n t0))) = min (length ts) n \<and>
   (ts \<noteq> [] \<longrightarrow>
      avgFps (fm_updates ts (new_FPSMonitor n t0)) =
        average (samples (fm_updates ts (new_FPSMonitor n t0)))) \<and>
   (0 < n \<and> ts \<noteq> [] \<and> 0 \<notin> set (durations t0 ts) \<longrightarrow>
      avgFps (fm_updates ts (new_FPSMonitor n t0)) =
        Fin (sum_list (map (\<lambda>d. 1000 / d) (drop (length ts - n) (durations t0 ts)))
             / real (min (length ts) n))) \<and>
   (0 < n \<longrightarrow>
      avgFps (fm_updates (uniform_times t0 16.67 n) (new_FPSMonitor n t0)) = Fin (1000 / 16.67) \<and>
      \<bar>1000 / 16.67 - 60\<bar> < (0.1 :: real) \<and>
      length (samples (fm_updates (uniform_times t0 16.67 (Suc n)) (new_FPSMonitor n t0))) = n)"
proof (intro conjI impI)
  show w: "samples (fm_updates ts (new_FPSMonitor n t0)) =
     drop (length ts - n) (map js_1000_div (durations t0 ts))"
    by (rule new_window)
  show "length (samples (fm_updates ts (new_FPSMonitor n t0))) = min (length ts) n"
    by (simp add: new_window min_def)
  show "length (samples (fm_updates (uniform_times t0 16.67 (Suc n)) (new_FPSMonitor n t0))) = n"
    by (simp add: new_window)
  show "\<bar>1000 / 16.67 - 60\<bar> < (0.1 :: real)" by simp
next
  assume "ts \<noteq> []"
  then show "avgFps (fm_updates ts (new_FPSMonitor n t0)) =
        average (samples (fm_updates ts (new_FPSMonitor n t0)))"
    by (rule fm_updates_avg)
next
  assume "0 < n"
  then show "avgFps (fm_updates (uniform_times t0 16.67 n) (new_FPSMonitor n t0)) = Fin (1000 / 16.67)"
    by (intro uniform_avg) simp_all
next
  assume a: "0 < n \<and> ts \<noteq> [] \<and> 0 \<notin> set (durations t0 ts)"
  let ?W = "drop (length ts - n) (durations t0 ts)"
  have z: "0 \<notin> set ?W" using a by (auto dest: in_set_dropD)
  have l: "length ?W = min (length ts) n" by (simp add: min_def)
  have ne: "?W \<noteq> []" using a l by (cases ts) (auto simp add: min_def split: if_splits)
  have "avgFps (fm_updates ts (new_FPSMonitor n t0)) = average (map js_1000_div ?W)"
    using a by (simp add: fm_updates_avg new_window drop_map)
  also have "\<dots> = Fin (sum_list (map (\<lambda>d. 1000 / d) ?W) / real (length ?W))"
    using z ne by (rule average_fps)
  finally show "avgFps (fm_updates ts (new_FPSMonitor n t0)) =
        Fin (sum_list (map (\<lambda>d. 1000 / d) ?W) / real (min (length ts) n))"
    by (simp only: l)
qed

text \<open>
  The average is not the mean of the durations converted to a rate: after a frame of
  10 ms and one of 30 ms the monitor reports 200/3, while the mean duration of 20 ms
  corresponds to 50 frames per second.
\<close>

theorem mean_of_durations_counterexample:
  "avgFps (fm_updates [10, 40] (new_FPSMonitor 60 0)) = Fin (200 / 3) \<and>
   fps_of_mean_duration (durations 0 [10, 40]) = 50 \<and>
   avgFps (fm_updates [10, 40] (new_FPSMonitor 60 0))
     \<noteq> Fin (fps_of_mean_duration (durations 0 [10, 40]))"
  by (simp add: new_FPSMonitor_def fm_update_def checkQuality_def push_sample_def
        average_def js_1000_div_def fps_of_mean_duration_def Let_def)

theorem rolling_window_witness:
  "[10, 40, 60 :: real] \<noteq> [] \<and> (0::nat) < 2 \<and> 0 \<notin> set (durations 0 [10, 40, 60]) \<and>
   samples (fm_updates [10, 40, 60] (new_FPSMonitor 2 0)) = [Fin (100 / 3), Fin 50] \<and>
   avgFps (fm_updates [10, 40, 60] (new_FPSMonitor 2 0)) = Fin (125 / 3) \<and>
   avgFps (fm_updates (uniform_times 0 16.67 2) (new_FPSMonitor 2 0)) = Fin (1000 / 16.67)"
proof -
  have h: "(0::nat) < 2 \<and> [10, 40, 60 :: real] \<noteq> [] \<and> 0 \<notin> set (durations 0 [10, 40, 60])"
    by simp
  have p: "(0::nat) < 2" by simp
  from rolling_window[of "[10, 40, 60]" 2 0] h
  have a: "samples (fm_updates [10, 40, 60] (new_FPSMonitor 2 0)) =
             drop (length [10, 40, 60 :: real] - 2) (map js_1000_div (durations 0 [10, 40, 60]))"
    and b: "avgFps (fm_updates [10, 40, 60] (new_FPSMonitor 2 0)) =
        Fin (sum_list (map (\<lambda>d. 1000 / d) (drop (length [10, 40, 60 :: real] - 2) (durations 0 [10, 40, 60])))
             / real (min (length [10, 40, 60 :: real]) 2))"
    by blast+
  from rolling_window[of "[]" 2 0] p
  have c: "avgFps (fm_updates (uniform_times 0 16.67 2) (new_FPSMonitor 2 0)) = Fin (1000 / 16.67)"
    by blast
  have a': "samples (fm_updates [10, 40, 60] (new_FPSMonitor 2 0)) = [Fin (100 / 3), Fin 50]"
    unfolding a by (simp add: js_1000_div_def)
  have b': "avgFps (fm_updates [10, 40, 60] (new_FPSMonitor 2 0)) = Fin (125 / 3)"
    unfolding b by simp
  from h a' b' c show ?thesis by simp
qed

section \<open>The manual override\<close>

lemma qm_update_dwell:
  assumes "framesSinceQualityChange (fpsMonitor qm) + 1 < qualityChangeDelay (fpsMonitor qm)"
  shows "qm_update t qm = qm\<lparr> fpsMonitor := fst (fm_update t (fpsMonitor qm)) \<rparr>"
  by (simp add: qm_update_def fm_update_dwell[OF assms])

lemma qm_updates_dwell:
  "framesSinceQualityChange (fpsMonitor qm) + length ts < qualityChangeDelay (fpsMonitor qm) \<Longrightarrow>
   qm_updates ts qm = qm\<lparr> fpsMonitor := fm_updates ts (fpsMonitor qm) \<rparr>"
proof (induction ts arbitrary: qm)
  case Nil
  then show ?case by simp
next
  case (Cons t ts)
  let ?m = "fpsMonitor qm"
  from Cons.prems have d: "framesSinceQualityChange ?m + 1 < qualityChangeDelay ?m" by simp
  let ?qm1 = "qm\<lparr> fpsMonitor := fst (fm_update t ?m) \<rparr>"
  have "framesSinceQualityChange (fpsMonitor ?qm1) + length ts < qualityChangeDelay (fpsMonitor ?qm1)"
    using Cons.prems by (simp add: fm_update_dwell[OF d])
  from Cons.IH[OF this] show ?case by (simp add: qm_update_dwell[OF d])
qed

lemma qm_update_fires:
  "snd (fm_update t (fpsMonitor qm)) = Some q \<Longrightarrow>
   qm_update t qm = applyQuality q (qm\<lparr> fpsMonitor := fst (fm_update t (fpsMonitor qm)) \<rparr>)"
  by (cases "fm_update t (fpsMonitor qm)") (simp add: qm_update_def)

lemma qm_updates_snoc: "qm_updates (ts @ [t]) qm = qm_update t (qm_updates ts qm)"
  by (induction ts arbitrary: qm) simp_all

lemma uniform_times_snoc:
  "uniform_times t0 d (Suc n) = uniform_times t0 d n @ [t0 + d * real (Suc n)]"
  by (simp add: uniform_times_def)

lemma fm_updates_fields:
  "highQualityThreshold (fm_updates ts m) = highQualityThreshold m \<and>
   lowQualityThreshold (fm_updates ts m) = lowQualityThreshold m \<and>
   qualityChangeDelay (fm_updates ts m) = qualityChangeDelay m \<and>
   fm_onQualityChange (fm_updates ts m) = fm_onQualityChange m \<and>
   lastTime (fm_updates ts m) = last (lastTime m # ts)"
  by (induction ts arbitrary: m) (simp_all add: fm_update_config)

lemma fm_update_to_medium:
  assumes c: "configured m" and f: "60 \<le> framesSinceQualityChange m + 1"
    and q: "currentQuality m = ''high''" and cb: "fm_onQualityChange m"
    and a: "average (push_sample (sampleSize m) (js_1000_div (t - lastTime m)) (samples m)) = Fin v"
    and v: "30 \<le> v" "v < 55"
  shows "snd (fm_update t m) = Some ''medium''"
  using assms
  by (simp add: fm_update_def checkQuality_def Let_def configured_def)

text \<open>
  Claim C2 (manual override). \<open>setQuality\<close> clears \<open>autoQuality\<close>, but no method reads
  the flag: the per-frame \<open>update\<close> still runs the monitor, whose callback applies a
  preset. After \<open>setQuality('low')\<close> on a new manager, sixty frames of 25 ms (40 frames
  per second) end with the preset \<open>medium\<close> applied automatically while \<open>autoQuality\<close>
  is still false.
\<close>

theorem manual_override_not_honoured:
  "autoQuality (setQuality ''low'' (new_QualityManager True 0)) = False \<and>
   currentPreset (setQuality ''low'' (new_QualityManager True 0)) = ''low'' \<and>
   autoQuality (qm_updates (uniform_times 0 25 60) (setQuality ''low'' (new_QualityManager True 0)))
     = False \<and>
   currentPreset (qm_updates (uniform_times 0 25 60) (setQuality ''low'' (new_QualityManager True 0)))
     = ''medium'' \<and>
   qm_calls (qm_updates (uniform_times 0 25 60) (setQuality ''low'' (new_QualityManager True 0)))
     = [SetQualityScale 0.5, SetBloomEnabled False, ConsoleLog ''Quality changed to: low'',
        SetQualityScale 0.75, SetBloomEnabled True, SetBloom 0.3 0.4 0.85,
        ConsoleLog ''Quality changed to: medium'']"
proof -
  let ?qm0 = "setQuality ''low'' (new_QualityManager True 0)"
  let ?m0 = "(new_FPSMonitor 60 0)\<lparr> fm_onQualityChange := True \<rparr>"
  let ?ts = "uniform_times 0 25 59"
  let ?m59 = "fm_updates ?ts ?m0"
  have qm0: "?qm0 = \<lparr> fpsMonitor = ?m0, hasPostProcessing = True, currentPreset = ''low'',
      autoQuality = False,
      qm_calls = [SetQualityScale 0.5, SetBloomEnabled False, ConsoleLog ''Quality changed to: low''] \<rparr>"
    by (simp add: setQuality_def applyQuality_def presets_def new_QualityManager_def)
  have m0: "framesSinceQualityChange ?m0 = 0" "qualityChangeDelay ?m0 = 60"
    "samples ?m0 = []" "sampleSize ?m0 = 60" "lastTime ?m0 = 0" "currentQuality ?m0 = ''high''"
    "configured ?m0" "fm_onQualityChange ?m0"
    by (simp_all add: new_FPSMonitor_def configured_def)
  have d: "framesSinceQualityChange (fpsMonitor ?qm0) + length ?ts < qualityChangeDelay (fpsMonitor ?qm0)"
    by (simp add: qm0 m0)
  have q59: "qm_updates ?ts ?qm0 = ?qm0\<lparr> fpsMonitor := ?m59 \<rparr>"
    using qm_updates_dwell[OF d] by (simp add: qm0)
  have d': "framesSinceQualityChange ?m0 + length ?ts < qualityChangeDelay ?m0"
    by (simp add: m0)
  have cnt: "framesSinceQualityChange ?m59 = 59" and cq: "currentQuality ?m59 = ''high''"
    using fm_updates_dwell[OF d'] by (simp_all add: m0)
  have cfg: "configured ?m59" and cb: "fm_onQualityChange ?m59"
    using fm_updates_fields[of ?ts ?m0] m0 by (simp_all add: configured_def)
  have "?ts = uniform_times 0 25 58 @ [1475]"
    using uniform_times_snoc[of 0 25 58] by simp
  then have "last (lastTime ?m0 # ?ts) = 1475"
    by (simp only: last_ConsR last_snoc) simp
  then have lt: "lastTime ?m59 = 1475"
    using fm_updates_fields[of ?ts ?m0] by simp
  have "length (samples ?m0) \<le> sampleSize ?m0" by (simp add: m0)
  from fm_updates_samples[OF this, of ?ts]
  have ss: "samples ?m59 = map js_1000_div (replicate 59 25)" and sz: "sampleSize ?m59 = 60"
    by (simp_all add: m0 durations_uniform)
  have win: "push_sample (sampleSize ?m59) (js_1000_div (1500 - lastTime ?m59)) (samples ?m59)
        = map js_1000_div (replicate 60 25)"
  proof -
    have "replicate 59 (25::real) @ [25] = replicate (Suc 59) 25"
      by (simp only: replicate_append_same replicate.simps)
    moreover have "Suc 59 = 60" by simp
    ultimately have "replicate 59 (25::real) @ [25] = replicate 60 25"
      by (simp only:)
    then have "map js_1000_div (replicate 59 25) @ [js_1000_div 25] = map js_1000_div (replicate 60 25)"
      by (metis list.simps(8,9) map_append)
    then show ?thesis
      by (simp add: push_sample_def Let_def ss sz lt)
  qed
  have avg: "average (push_sample (sampleSize ?m59) (js_1000_div (1500 - lastTime ?m59)) (samples ?m59))
        = Fin 40"
    unfolding win
    by (subst average_fps) (simp_all add: sum_list_replicate_const)
  have fire: "snd (fm_update 1500 ?m59) = Some ''medium''"
    by (rule fm_update_to_medium[OF cfg _ cq cb avg]) (simp_all add: cnt)
  have last: "uniform_times 0 25 60 = ?ts @ [1500]"
    using uniform_times_snoc[of 0 25 59] by simp
  have "qm_updates (uniform_times 0 25 60) ?qm0 = qm_update 1500 (?qm0\<lparr> fpsMonitor := ?m59 \<rparr>)"
    by (simp only: last qm_updates_snoc q59)
  also have "\<dots> = applyQuality ''medium'' (?qm0\<lparr> fpsMonitor := fst (fm_update 1500 ?m59) \<rparr>)"
    using qm_update_fires[of 1500 "?qm0\<lparr> fpsMonitor := ?m59 \<rparr>" "''medium''"] fire by simp
  finally have fin: "qm_updates (uniform_times 0 25 60) ?qm0 =
      applyQuality ''medium'' (?qm0\<lparr> fpsMonitor := fst (fm_update 1500 ?m59) \<rparr>)" .
  show ?thesis
    unfolding fin by (simp add: qm0 applyQuality_def presets_def)
qed

section \<open>Focus distance\<close>

lemma sqrt5_bounds: "2.2360679 < sqrt 5" "sqrt 5 < 2.2360680"
proof -
  have "(2.2360679::real)\<^sup>2 < 5" by (simp add: power2_eq_square)
  then show "2.2360679 < sqrt 5" by (rule real_less_rsqrt)
  have "(5::real) < 2.2360680\<^sup>2" by (simp add: power2_eq_square)
  then show "sqrt 5 < 2.2360680" by (intro real_less_lsqrt) simp_all
qed

lemma cos_pi_5: "cos (pi / 5) = (1 + sqrt 5) / 4"
proof -
  define c where "c = cos (pi / 5)"
  have "- (pi / 2) < pi / 5" and "pi / 5 < pi / 2" using pi_gt_zero by linarith+
  then have pos: "0 < c" unfolding c_def by (rule cos_gt_zero_pi)
  have "3 * (pi / 5) = pi - 2 * (pi / 5)" by simp
  then have "cos (3 * (pi / 5)) = - cos (2 * (pi / 5))"
    by (simp only: cos_pi_minus)
  then have e: "4 * c ^ 3 - 3 * c = - (2 * c ^ 2 - 1)"
    unfolding c_def by (simp only: cos_treble_cos cos_double_cos)
  have "(c + 1) * (4 * c\<^sup>2 - 2 * c - 1) = (4 * c ^ 3 - 3 * c) + (2 * c ^ 2 - 1)"
    by (simp add: algebra_simps power2_eq_square power3_eq_cube)
  also have "\<dots> = 0" using e by simp
  finally have "(c + 1) * (4 * c\<^sup>2 - 2 * c - 1) = 0" .
  with pos have q: "4 * c\<^sup>2 - 2 * c - 1 = 0" by simp
  have half: "1 / 2 < c"
  proof (rule ccontr)
    assume "\<not> 1 / 2 < c"
    then have "c \<le> 1 / 2" by simp
    with pos have "c * c \<le> (1 / 2) * (1 / 2)" by (intro mult_mono) simp_all
    then have "4 * c\<^sup>2 \<le> 1" by (simp add: power2_eq_square)
    with q pos show False by simp
  qed
  have "(4 * c - 1)\<^sup>2 = 4 * (4 * c\<^sup>2 - 2 * c - 1) + 5"
    by (simp add: power2_eq_square algebra_simps)
  then have "(4 * c - 1)\<^sup>2 = 5" using q by simp
  moreover have "0 \<le> 4 * c - 1" using half by simp
  ultimately have "sqrt 5 = 4 * c - 1" by (rule real_sqrt_unique)
  then show ?thesis unfolding c_def by simp
qed

lemma tan_pi_10_pos: "0 < tan (pi / 10)"
proof (rule tan_gt_zero)
  show "0 < pi / 10" by simp
  show "pi / 10 < pi / 2" using pi_gt_zero by linarith
qed

lemma focus_distance_60_sq: "(13 / tan (pi / 10))\<^sup>2 = 845 + 338 * sqrt 5"
proof -
  define c where "c = cos (pi / 5)"
  define sn where "sn = sin (pi / 5)"
  define t where "t = tan (pi / 10)"
  define r where "r = sqrt 5"
  have c: "c = (1 + r) / 4" unfolding c_def r_def by (rule cos_pi_5)
  have r2: "r * r = 5" unfolding r_def by simp
  have rb: "2 < r" "r < 3" unfolding r_def using sqrt5_bounds by simp_all
  have "t = sin (2 * (pi / 10)) / (cos (2 * (pi / 10)) + 1)" unfolding t_def by (rule tan_half)
  then have t: "t = sn / (c + 1)" unfolding sn_def c_def by simp
  have sc: "sn\<^sup>2 = 1 - c\<^sup>2" unfolding sn_def c_def by (rule sin_squared_eq)
  have cp: "0 < 1 + c" "0 < 1 - c" using c rb by simp_all
  have "t\<^sup>2 = sn\<^sup>2 / (c + 1)\<^sup>2" by (simp only: t power_divide)
  also have "\<dots> = ((1 - c) * (1 + c)) / ((1 + c) * (1 + c))"
    by (simp only: sc) (simp add: power2_eq_square algebra_simps)
  also have "\<dots> = (1 - c) / (1 + c)"
    using cp by (intro mult_divide_mult_cancel_right) simp
  finally have t2: "t\<^sup>2 = (1 - c) / (1 + c)" .
  have "(13 / t)\<^sup>2 = 169 / t\<^sup>2" by (simp add: power_divide)
  also have "\<dots> = 169 * (1 + c) / (1 - c)" by (simp only: t2) simp
  also have "\<dots> = 845 + 338 * r"
  proof -
    have e1: "1 + c = (5 + r) / 4" by (simp add: c add_divide_distrib)
    have e2: "1 - c = (3 - r) / 4" by (simp add: c add_divide_distrib diff_divide_distrib)
    have "(845 + 338 * r) * (3 - r) = 2535 + 169 * r - 338 * (r * r)"
      by (simp add: algebra_simps)
    then have k: "(845 + 338 * r) * (3 - r) = 169 * (5 + r)" by (simp only: r2) simp
    have ne: "1 - c \<noteq> 0" using cp by simp
    have eq: "169 * (1 + c) = (845 + 338 * r) * (1 - c)"
      by (simp only: e1 e2 times_divide_eq_right k)
    show ?thesis using iffD2[OF nonzero_divide_eq_eq[OF ne] eq] .
  qed
  finally show ?thesis unfolding t_def r_def .
qed

lemma focus_distance_60_value: "\<bar>13 / tan (pi / 10) - 40.009886\<bar> \<le> 1 / 10 ^ 6"
proof -
  define d where "d = 13 / tan (pi / 10)"
  have dp: "0 < d" unfolding d_def using tan_pi_10_pos by simp
  have d2: "d\<^sup>2 = 845 + 338 * sqrt 5" unfolding d_def by (rule focus_distance_60_sq)
  have lo: "(40.009885::real)\<^sup>2 < d\<^sup>2"
  proof -
    have "(40.009885::real)\<^sup>2 < 845 + 338 * 2.2360679" by (simp add: power2_eq_square)
    also have "\<dots> < 845 + 338 * sqrt 5" using sqrt5_bounds(1) by simp
    finally show ?thesis by (simp only: d2)
  qed
  have hi: "d\<^sup>2 < (40.009887::real)\<^sup>2"
  proof -
    have "845 + 338 * sqrt 5 < 845 + 338 * 2.2360680" using sqrt5_bounds(2) by simp
    also have "\<dots> < (40.009887::real)\<^sup>2" by (simp add: power2_eq_square)
    finally show ?thesis by (simp only: d2)
  qed
  from lo have "40.009885 < d" by (rule power2_less_imp_less) (use dp in simp)
  moreover from hi have "d < 40.009887" by (rule power2_less_imp_less) simp
  moreover have "1 / 10 ^ 6 = (0.000001::real)" by simp
  ultimately have "\<bar>d - 40.009886\<bar> \<le> 1 / 10 ^ 6" by linarith
  then show ?thesis unfolding d_def .
qed

text \<open>
  Claim C8 (focus distance). For every radius \<open>r\<close> and every field of view, the focus
  distance is \<open>r / tan(fov in radians * 0.6 / 2) * 1.3\<close>; for \<open>r = 10\<close> and a field of
  view of 60 degrees it agrees with \<open>10 / tan(radians(60 * 0.6) / 2) * 1.3\<close> to within
  \<open>10\<^sup>-\<^sup>6\<close>, and that number lies within \<open>10\<^sup>-\<^sup>6\<close> of 40.009886. For a field of
  view between 0 and 180 degrees the tangent is positive, so the quotient is a proper
  one, and the distance of a body of positive radius is positive.
\<close>

theorem focus_distance_formula:
  "calculateFocusDistance c r 0.6 = r / tan (degToRad (cam_fov c) * 0.6 / 2) * 1.3 \<and>
   (cam_fov c = 60 \<longrightarrow>
      \<bar>calculateFocusDistance c 10 0.6 - 10 / tan (degToRad (60 * 0.6) / 2) * 1.3\<bar> \<le> 1 / 10 ^ 6 \<and>
      \<bar>calculateFocusDistance c 10 0.6 - 40.009886\<bar> \<le> 1 / 10 ^ 6) \<and>
   (0 < cam_fov c \<and> cam_fov c < 180 \<longrightarrow> 0 < tan (degToRad (cam_fov c) * 0.6 / 2)) \<and>
   (0 < cam_fov c \<and> cam_fov c < 180 \<and> 0 < r \<longrightarrow> 0 < calculateFocusDistance c r 0.6)"
proof -
  have f: "calculateFocusDistance c r 0.6 = r / tan (degToRad (cam_fov c) * 0.6 / 2) * 1.3" for r
    by (simp add: calculateFocusDistance_def Let_def)
  have t: "0 < tan (degToRad (cam_fov c) * 0.6 / 2)" if "0 < cam_fov c \<and> cam_fov c < 180"
  proof (rule tan_gt_zero)
    show "0 < degToRad (cam_fov c) * 0.6 / 2" using that by (simp add: degToRad_def)
    have "degToRad (cam_fov c) * 0.6 / 2 = pi * (cam_fov c * 3 / 1800)"
      by (simp add: degToRad_def)
    also have "\<dots> < pi * (1 / 2)"
      using that by (intro mult_strict_left_mono) simp_all
    finally show "degToRad (cam_fov c) * 0.6 / 2 < pi / 2" by simp
  qed
  have i: "\<bar>calculateFocusDistance c 10 0.6 - 10 / tan (degToRad (60 * 0.6) / 2) * 1.3\<bar> \<le> 1 / 10 ^ 6"
    if "cam_fov c = 60"
    using that by (simp add: calculateFocusDistance_def degToRad_def Let_def)
  have v: "\<bar>calculateFocusDistance c 10 0.6 - 40.009886\<bar> \<le> 1 / 10 ^ 6" if "cam_fov c = 60"
  proof -
    have "calculateFocusDistance c 10 0.6 = 13 / tan (pi / 10)"
      using that by (simp add: calculateFocusDistance_def degToRad_def Let_def)
    then show ?thesis by (simp only: focus_distance_60_value)
  qed
  have p: "0 < calculateFocusDistance c r 0.6" if "0 < cam_fov c \<and> cam_fov c < 180 \<and> 0 < r"
  proof -
    from that t have "0 < r / tan (degToRad (cam_fov c) * 0.6 / 2) * 1.3"
      by (intro mult_pos_pos divide_pos_pos) simp_all
    then show ?thesis by (simp only: f)
  qed
  from f t i v p show ?thesis by blast
qed

theorem focus_distance_formula_witness:
  "cam_fov (new_CameraController 60) = 60 \<and>
   0 < cam_fov (new_CameraController 60) \<and> cam_fov (new_CameraController 60) < 180 \<and>
   calculateFocusDistance (new_CameraController 60) 10 0.6 = 10 / tan (pi / 10) * 1.3 \<and>
   \<bar>calculateFocusDistance (new_CameraController 60) 10 0.6 - 40.009886\<bar> \<le> 1 / 10 ^ 6 \<and>
   0 < tan (pi / 10) \<and>
   0 < calculateFocusDistance (new_CameraController 60) 10 0.6"
proof -
  let ?c = "new_CameraController 60"
  have h: "cam_fov ?c = 60" "0 < cam_fov ?c \<and> cam_fov ?c < 180"
    "0 < cam_fov ?c \<and> cam_fov ?c < 180 \<and> 0 < (10::real)"
    by (simp_all add: new_CameraController_def)
  from focus_distance_formula[of ?c 10] h
  have a: "calculateFocusDistance ?c 10 0.6 = 10 / tan (degToRad (cam_fov ?c) * 0.6 / 2) * 1.3"
    and b: "0 < tan (degToRad (cam_fov ?c) * 0.6 / 2)"
    and d: "0 < calculateFocusDistance ?c 10 0.6"
    and v: "\<bar>calculateFocusDistance ?c 10 0.6 - 40.009886\<bar> \<le> 1 / 10 ^ 6"
    by blast+
  have e: "degToRad (cam_fov ?c) * 0.6 / 2 = pi / 10"
    by (simp add: h degToRad_def)
  from a b d h have "calculateFocusDistance ?c 10 0.6 = 10 / tan (pi / 10) * 1.3"
    and "0 < tan (pi / 10)"
    unfolding e by simp_all
  with d v h show ?thesis by blast
qed

section \<open>Pointer decay\<close>

subsection \<open>Rounding to binary64\<close>

lemma bit_length_0 [simp]: "bit_length 0 = 0"
  by (simp add: bit_length.simps)

lemma bit_length_pos: "0 < n \<Longrightarrow> bit_length n = Suc (bit_length (n div 2))"
  by (subst bit_length.simps) simp

lemma bit_length_bounds:
  "0 < n \<Longrightarrow> 2 ^ (bit_length n - 1) \<le> n \<and> n < 2 ^ bit_length n"
proof (induction n rule: bit_length.induct)
  case (1 n)
  show ?case
  proof (cases "n div 2 = 0")
    case True
    with "1.prems" have "n = 1" by (cases n) auto
    then show ?thesis by (simp add: bit_length_pos)
  next
    case False
    then have p: "0 < n div 2" by simp
    from "1.prems" have n0: "n \<noteq> 0" by simp
    from "1.IH"[OF n0 p]
    have lo: "2 ^ (bit_length (n div 2) - 1) \<le> n div 2"
      and hi: "n div 2 < 2 ^ bit_length (n div 2)" by simp_all
    have bp: "0 < bit_length (n div 2)" using p by (simp add: bit_length_pos)
    have "2 ^ (bit_length n - 1) = 2 * 2 ^ (bit_length (n div 2) - 1)"
      using bp "1.prems" by (cases "bit_length (n div 2)") (simp_all add: bit_length_pos)
    also have "\<dots> \<le> 2 * (n div 2)" using lo by simp
    also have "\<dots> \<le> n" by simp
    finally have a: "2 ^ (bit_length n - 1) \<le> n" .
    have "n < 2 * (n div 2) + 2" by presburger
    also have "\<dots> \<le> 2 * 2 ^ bit_length (n div 2)" using hi by simp
    also have "\<dots> = 2 ^ bit_length n" using "1.prems" by (simp add: bit_length_pos)
    finally show ?thesis using a by simp
  qed
qed

lemma bit_length_le: "n < 2 ^ b \<Longrightarrow> bit_length n \<le> b"
proof (cases "n = 0")
  case True
  then show ?thesis by simp
next
  case False
  assume h: "n < 2 ^ b"
  from False have l: "2 ^ (bit_length n - 1) \<le> n" using bit_length_bounds[of n] by simp
  from l h have "(2::nat) ^ (bit_length n - 1) < 2 ^ b" by (rule le_less_trans)
  then have "bit_length n - 1 < b" by (rule power_less_imp_less_exp[rotated]) simp
  then show ?thesis by simp
qed

lemma bit_length_eqI: "2 ^ b \<le> n \<Longrightarrow> n < 2 ^ Suc b \<Longrightarrow> bit_length n = Suc b"
proof -
  assume lo: "2 ^ b \<le> n" and hi: "n < 2 ^ Suc b"
  from lo have p: "0 < n" by (cases n) auto
  from hi have u: "bit_length n \<le> Suc b" by (rule bit_length_le)
  from p have hb: "n < 2 ^ bit_length n" using bit_length_bounds by simp
  from lo hb have "(2::nat) ^ b < 2 ^ bit_length n" by (rule le_less_trans)
  then have "b < bit_length n" by (rule power_less_imp_less_exp[rotated]) simp
  with u show ?thesis by simp
qed

lemma round_half_even_near:
  "2 * round_half_even M sh * 2 ^ sh \<le> 2 * M + 2 ^ sh \<and>
   2 * M \<le> 2 * round_half_even M sh * 2 ^ sh + 2 ^ sh"
proof -
  define q where "q = M div 2 ^ sh"
  define r where "r = M mod 2 ^ sh"
  have M: "M = q * 2 ^ sh + r" unfolding q_def r_def by (rule div_mult_mod_eq[symmetric])
  have r: "r < 2 ^ sh" unfolding r_def by simp
  have rhe: "round_half_even M sh =
      (if 2 * r > 2 ^ sh \<or> (2 * r = 2 ^ sh \<and> odd q) then q + 1 else q)"
    by (simp add: round_half_even_def Let_def q_def r_def)
  show ?thesis
  proof (cases "2 * r > 2 ^ sh \<or> (2 * r = 2 ^ sh \<and> odd q)")
    case True
    then have e: "round_half_even M sh = q + 1" by (simp add: rhe)
    from True have h: "2 ^ sh \<le> 2 * r" by auto
    have "2 * (q + 1) * 2 ^ sh \<le> 2 * (q * 2 ^ sh + r) + 2 ^ sh \<and>
          2 * (q * 2 ^ sh + r) \<le> 2 * (q + 1) * 2 ^ sh + 2 ^ sh"
      using h r by (simp add: algebra_simps)
    then show ?thesis by (simp only: e M[symmetric])
  next
    case False
    then have e: "round_half_even M sh = q" by (simp add: rhe)
    from False have h: "2 * r \<le> 2 ^ sh" by auto
    have "2 * q * 2 ^ sh \<le> 2 * (q * 2 ^ sh + r) + 2 ^ sh \<and>
          2 * (q * 2 ^ sh + r) \<le> 2 * q * 2 ^ sh + 2 ^ sh"
      using h by (simp add: algebra_simps)
    then show ?thesis by (simp only: e M[symmetric])
  qed
qed

lemma round_half_even_le: "M \<le> c * 2 ^ sh \<Longrightarrow> round_half_even M sh \<le> c"
proof -
  assume h: "M \<le> c * 2 ^ sh"
  define q where "q = M div 2 ^ sh"
  define r where "r = M mod 2 ^ sh"
  have M: "M = q * 2 ^ sh + r" unfolding q_def r_def by (rule div_mult_mod_eq[symmetric])
  have qc: "q \<le> c"
  proof -
    have "q = M div 2 ^ sh" by (simp add: q_def)
    also have "\<dots> \<le> (c * 2 ^ sh) div 2 ^ sh" using h by (rule div_le_mono)
    also have "\<dots> = c" by simp
    finally show ?thesis .
  qed
  show ?thesis
  proof (cases "q = c")
    case True
    with h M have "r = 0" by simp
    then show ?thesis using True
      by (simp add: round_half_even_def Let_def q_def[symmetric] r_def[symmetric])
  next
    case False
    with qc have "q + 1 \<le> c" by simp
    then show ?thesis using qc
      by (simp add: round_half_even_def Let_def q_def[symmetric] r_def[symmetric])
  qed
qed

lemma round_half_even_ge: "c * 2 ^ sh \<le> M \<Longrightarrow> c \<le> round_half_even M sh"
proof -
  assume h: "c * 2 ^ sh \<le> M"
  have "c = (c * 2 ^ sh) div 2 ^ sh" by simp
  also have "\<dots> \<le> M div 2 ^ sh" using h by (rule div_le_mono)
  finally show ?thesis by (simp add: round_half_even_def Let_def)
qed

lemma two_powi_pos [simp]: "0 < (2::real) powi k"
  by (simp add: power_int_def)

lemma two_powi_shift: "0 \<le> sh \<Longrightarrow> (2::real) powi (e + sh) = 2 powi e * 2 ^ nat sh"
proof -
  assume "0 \<le> sh"
  then have "sh = int (nat sh)" by simp
  then have "(2::real) powi sh = 2 ^ nat sh" by (metis power_int_of_nat)
  then show ?thesis by (simp add: power_int_add)
qed

lemma two_powi_succ: "(2::real) powi (e + 1) = 2 powi e * 2"
  by (simp add: power_int_add)

lemma round64_dropped:
  "round64 m e =
     (if dropped m e \<le> 0 then \<lparr> mant = m, expo = e \<rparr>
      else if round_half_even (nat \<bar>m\<bar>) (nat (dropped m e)) = 2 ^ 53
           then \<lparr> mant = sgn m * 2 ^ 52, expo = e + dropped m e + 1 \<rparr>
           else \<lparr> mant = sgn m * int (round_half_even (nat \<bar>m\<bar>) (nat (dropped m e))),
                  expo = e + dropped m e \<rparr>)"
  unfolding round64_def Let_def by (rule refl)

lemma round64_exact:
  "dropped m e \<le> 0 \<Longrightarrow> round64 m e = \<lparr> mant = m, expo = e \<rparr>"
  by (simp add: round64_dropped)

lemma round64_rounded:
  assumes "0 < dropped m e"
  shows "dval (round64 m e) =
     of_int (sgn m) * real (round_half_even (nat \<bar>m\<bar>) (nat (dropped m e))) * 2 powi (e + dropped m e)"
proof -
  let ?q = "round_half_even (nat \<bar>m\<bar>) (nat (dropped m e))"
  show ?thesis
  proof (cases "?q = 2 ^ 53")
    case True
    then have "round64 m e = \<lparr> mant = sgn m * 2 ^ 52, expo = e + dropped m e + 1 \<rparr>"
      using assms by (simp add: round64_dropped)
    then have "dval (round64 m e) = of_int (sgn m) * 2 ^ 52 * (2 powi (e + dropped m e) * 2)"
      by (simp add: dval_def two_powi_succ)
    also have "\<dots> = of_int (sgn m) * 2 ^ 53 * 2 powi (e + dropped m e)" by simp
    also have "(2::real) ^ 53 = real ?q" by (simp only: True) simp
    finally show ?thesis .
  next
    case False
    then have "round64 m e = \<lparr> mant = sgn m * int ?q, expo = e + dropped m e \<rparr>"
      using assms by (simp add: round64_dropped)
    then show ?thesis by (simp add: dval_def)
  qed
qed

lemma of_int_sgn_abs: "of_int (sgn m) * real (nat \<bar>m\<bar>) = (of_int m :: real)"
  by (cases "m < 0") (simp_all add: sgn_if)

lemma abs_sgn_le_1: "\<bar>of_int (sgn m) :: real\<bar> \<le> 1"
  by (simp add: sgn_if)

lemma round64_error:
  "\<bar>dval (round64 m e) - of_int m * 2 powi e\<bar>
     \<le> \<bar>of_int m\<bar> * 2 powi e / 2 ^ 53 + 2 powi (- 1075)"
proof (cases "dropped m e \<le> 0")
  case True
  then have "dval (round64 m e) = of_int m * 2 powi e"
    by (simp add: round64_exact dval_def)
  then show ?thesis by simp
next
  case False
  then have pos: "0 < dropped m e" by simp
  define sh where "sh = nat (dropped m e)"
  define M where "M = nat \<bar>m\<bar>"
  define q where "q = round_half_even M sh"
  define P where "P = (2::real) powi e"
  have Ppos: "0 < P" by (simp add: P_def)
  have shp: "0 < sh" and shd: "dropped m e = int sh" using pos by (simp_all add: sh_def)
  have pw: "(2::real) powi (e + dropped m e) = P * 2 ^ sh"
    using pos by (simp add: two_powi_shift P_def sh_def)
  have v: "dval (round64 m e) = of_int (sgn m) * real q * (P * 2 ^ sh)"
    using round64_rounded[OF pos] by (simp add: q_def M_def sh_def pw)
  have mM: "(of_int m :: real) = of_int (sgn m) * real M"
    unfolding M_def by (rule of_int_sgn_abs[symmetric])
  have absM: "\<bar>of_int m :: real\<bar> = real M" by (simp add: M_def)
  have "dval (round64 m e) - of_int m * P = of_int (sgn m) * ((real q * 2 ^ sh - real M) * P)"
    by (simp add: v mM algebra_simps)
  then have "\<bar>dval (round64 m e) - of_int m * P\<bar>
      = \<bar>of_int (sgn m) :: real\<bar> * (\<bar>real q * 2 ^ sh - real M\<bar> * P)"
    using Ppos by (simp add: abs_mult)
  also have "\<dots> \<le> 1 * (\<bar>real q * 2 ^ sh - real M\<bar> * P)"
    using Ppos by (intro mult_right_mono abs_sgn_le_1) simp
  finally have e1: "\<bar>dval (round64 m e) - of_int m * P\<bar> \<le> \<bar>real q * 2 ^ sh - real M\<bar> * P"
    by simp
  from round_half_even_near[of M sh]
  have n1: "2 * q * 2 ^ sh \<le> 2 * M + 2 ^ sh" and n2: "2 * M \<le> 2 * q * 2 ^ sh + 2 ^ sh"
    by (simp_all add: q_def)
  have r1: "2 * real q * 2 ^ sh \<le> 2 * real M + 2 ^ sh"
    using n1 by (metis (mono_tags, opaque_lifting) of_nat_le_iff of_nat_add of_nat_mult
        of_nat_numeral of_nat_power)
  have r2: "2 * real M \<le> 2 * real q * 2 ^ sh + 2 ^ sh"
    using n2 by (metis (mono_tags, opaque_lifting) of_nat_le_iff of_nat_add of_nat_mult
        of_nat_numeral of_nat_power)
  have r1': "2 * (real q * 2 ^ sh) \<le> 2 * real M + 2 ^ sh" using r1 by (simp add: mult.assoc)
  have r2': "2 * real M \<le> 2 * (real q * 2 ^ sh) + 2 ^ sh" using r2 by (simp add: mult.assoc)
  have half: "\<bar>real q * 2 ^ sh - real M\<bar> \<le> 2 ^ sh / 2"
    using r1' r2' by linarith
  have e2: "\<bar>dval (round64 m e) - of_int m * P\<bar> \<le> 2 ^ sh / 2 * P"
    using e1 half Ppos by (meson mult_right_mono order_trans less_imp_le)
  define eta where "eta = (2::real) powi (- 1075)"
  have etap: "0 < eta" by (simp only: eta_def two_powi_pos)
  have "2 ^ sh / 2 * P \<le> real M * P / 2 ^ 53 + eta"
  proof (cases "- 1074 - e \<le> int (bit_length M) - 53")
    case True
    then have "dropped m e = int (bit_length M) - 53" by (simp add: dropped_def M_def)
    then have bl: "bit_length M = sh + 53" using shd by simp
    then have Mp: "0 < M" by (cases "M = 0") simp_all
    from bit_length_bounds[OF Mp] have "2 ^ (sh + 52) \<le> M" by (simp add: bl add.commute)
    then have "(2::real) ^ (sh + 52) \<le> real M"
      by (metis of_nat_le_iff of_nat_numeral of_nat_power)
    then have "(2::real) ^ sh * 2 ^ 52 \<le> real M" by (simp add: power_add)
    then have "(2::real) ^ sh \<le> real M / 2 ^ 52" by (simp add: pos_le_divide_eq)
    then have "(2::real) ^ sh / 2 * P \<le> real M / 2 ^ 52 / 2 * P"
      using Ppos by (intro mult_right_mono divide_right_mono) simp_all
    also have "\<dots> = real M * P / 2 ^ 53" by simp
    finally have "(2::real) ^ sh / 2 * P \<le> real M * P / 2 ^ 53" .
    with etap show ?thesis by linarith
  next
    case False
    then have "dropped m e = - 1074 - e" by (simp add: dropped_def M_def)
    then have "e + dropped m e = - 1075 + 1" by simp
    then have "(2::real) powi (e + dropped m e) = 2 powi (- 1075 + 1)" by (rule arg_cong)
    also have "\<dots> = eta * 2" unfolding eta_def by (rule two_powi_succ)
    finally have "P * 2 ^ sh = eta * 2" by (simp only: pw)
    moreover have "2 ^ sh / 2 * P = (P * 2 ^ sh) / 2" by simp
    ultimately have "2 ^ sh / 2 * P = eta" by simp
    moreover have "0 \<le> real M * P / 2 ^ 53" using Ppos by simp
    ultimately show ?thesis by linarith
  qed
  with e2 have "\<bar>dval (round64 m e) - of_int m * P\<bar> \<le> real M * P / 2 ^ 53 + eta"
    by (rule order_trans)
  then show ?thesis unfolding eta_def P_def absM[symmetric] .
qed

lemma round64_contract:
  fixes m c e :: int and k :: nat
  assumes m: "\<bar>m\<bar> < 2 ^ 53" and e: "- 1074 \<le> e" "e \<le> 971" and c: "0 < c" "c < 2 ^ k"
  shows "is_double (round64 (m * c) (e - int k))"
    and "\<bar>dval (round64 (m * c) (e - int k))\<bar> \<le> \<bar>of_int m\<bar> * 2 powi e"
    and "0 \<le> m \<Longrightarrow> 0 \<le> mant (round64 (m * c) (e - int k))"
proof -
  define A where "A = nat \<bar>m\<bar>"
  define C where "C = nat c"
  define M where "M = nat \<bar>m * c\<bar>"
  define D where "D = dropped (m * c) (e - int k)"
  define P where "P = (2::real) powi e"
  define X where "X = real A * P"
  have Ppos: "0 < P" by (simp add: P_def)
  have MAC: "M = A * C" using c by (simp add: M_def A_def C_def abs_mult nat_mult_distrib)
  have A53: "A < 2 ^ 53" using m by (simp add: A_def nat_less_iff)
  have Ck: "C < 2 ^ k" using c by (simp add: C_def nat_less_iff)
  have Cp: "0 < C" using c by (simp add: C_def)
  have MAk: "M \<le> A * 2 ^ k" using Ck by (simp add: MAC)
  have rMAk: "real M \<le> real (A * 2 ^ k)" using MAk by (rule of_nat_mono)
  have PK: "(2::real) powi (e - int k) * 2 ^ k = P"
  proof -
    have "(2::real) powi (e - int k + int k) = 2 powi (e - int k) * 2 ^ nat (int k)"
      by (rule two_powi_shift) simp
    then show ?thesis by (simp add: P_def)
  qed
  have absm: "\<bar>of_int m :: real\<bar> = real A" by (simp add: A_def)
  have Mlt: "M < 2 ^ (53 + k)"
  proof (cases "A = 0")
    case True
    then show ?thesis by (simp add: MAC)
  next
    case False
    have "A * C < A * 2 ^ k" using Ck False by simp
    also have "\<dots> < 2 ^ 53 * 2 ^ k" using A53 by simp
    finally show ?thesis by (simp add: MAC power_add)
  qed
  then have blk: "bit_length M \<le> 53 + k" by (rule bit_length_le)
  have Dk: "D \<le> int k" using blk e by (simp add: D_def dropped_def M_def[symmetric])
  have Dlo: "- 1074 - (e - int k) \<le> D" and Dbl: "int (bit_length M) - 53 \<le> D"
    by (simp_all add: D_def dropped_def M_def[symmetric])
  let ?r = "round64 (m * c) (e - int k)"
  have all: "is_double ?r \<and> \<bar>dval ?r\<bar> \<le> X \<and> (0 \<le> m \<longrightarrow> 0 \<le> mant ?r)"
  proof (cases "D \<le> 0")
    case True
    then have r: "?r = \<lparr> mant = m * c, expo = e - int k \<rparr>"
      by (simp add: round64_exact D_def)
    have "bit_length M \<le> 53" using True Dbl by simp
    have M53: "M < 2 ^ 53"
    proof (cases "M = 0")
      case True
      then show ?thesis by simp
    next
      case False
      then have "M < 2 ^ bit_length M" using bit_length_bounds[of M] by simp
      also have "(2::nat) ^ bit_length M \<le> 2 ^ 53"
        using \<open>bit_length M \<le> 53\<close> by (intro power_increasing) simp_all
      finally show ?thesis .
    qed
    then have "\<bar>m * c\<bar> < 2 ^ 53" by (simp add: M_def nat_less_iff)
    moreover have "- 1074 \<le> e - int k" using True Dlo by simp
    moreover have "e - int k \<le> 971" using e by simp
    ultimately have d: "is_double ?r" by (simp add: r is_double_def)
    have "\<bar>dval ?r\<bar> = real M * 2 powi (e - int k)"
      by (simp add: r dval_def abs_mult M_def)
    also have "\<dots> \<le> real (A * 2 ^ k) * 2 powi (e - int k)"
      using rMAk by (intro mult_right_mono) (simp_all only: zero_le_power_int zero_le_numeral)
    also have "\<dots> = real A * (2 powi (e - int k) * 2 ^ k)" by simp
    also have "\<dots> = X" by (simp only: PK X_def)
    finally have v: "\<bar>dval ?r\<bar> \<le> X" .
    have "0 \<le> m \<longrightarrow> 0 \<le> mant ?r" using c by (simp add: r)
    with d v show ?thesis by simp
  next
    case False
    then have Dpos: "0 < D" by simp
    define sh where "sh = nat D"
    define q where "q = round_half_even M sh"
    have shD: "D = int sh" and shk: "sh \<le> k" using Dpos Dk by (simp_all add: sh_def)
    have "M \<le> (A * 2 ^ (k - sh)) * 2 ^ sh"
      using MAk shk by (simp add: mult.assoc power_add[symmetric])
    then have qA: "q \<le> A * 2 ^ (k - sh)" unfolding q_def by (rule round_half_even_le)
    then have rqA: "real q \<le> real (A * 2 ^ (k - sh))" by (rule of_nat_mono)
    have "M < 2 ^ (53 + sh)"
    proof (cases "M = 0")
      case True
      then show ?thesis by simp
    next
      case False
      then have "M < 2 ^ bit_length M" using bit_length_bounds[of M] by simp
      also have "(2::nat) ^ bit_length M \<le> 2 ^ (53 + sh)"
        using Dbl shD by (intro power_increasing) simp_all
      finally show ?thesis .
    qed
    then have "M \<le> 2 ^ 53 * 2 ^ sh" by (simp add: power_add)
    then have q53: "q \<le> 2 ^ 53" unfolding q_def by (rule round_half_even_le)
    have pw: "(2::real) powi (e - int k + D) * 2 ^ (k - sh) = P"
    proof -
      have "(2::real) powi (e - int k + D + int (k - sh)) =
            2 powi (e - int k + D) * 2 ^ nat (int (k - sh))"
        by (rule two_powi_shift) simp
      moreover have "e - int k + D + int (k - sh) = e" using shk shD by simp
      ultimately show ?thesis by (simp add: P_def)
    qed
    have val: "dval ?r = of_int (sgn (m * c)) * real q * 2 powi (e - int k + D)"
      using round64_rounded[of "m * c" "e - int k"] Dpos
      by (simp add: D_def[symmetric] q_def sh_def M_def)
    have "\<bar>dval ?r\<bar> = \<bar>of_int (sgn (m * c)) :: real\<bar> * (real q * 2 powi (e - int k + D))"
      by (simp add: val abs_mult)
    also have "\<dots> \<le> 1 * (real q * 2 powi (e - int k + D))"
      by (intro mult_right_mono abs_sgn_le_1) (simp add: less_imp_le)
    also have "\<dots> \<le> real (A * 2 ^ (k - sh)) * 2 powi (e - int k + D)"
      using rqA by (simp only: mult_1 mult_right_mono zero_le_power_int zero_le_numeral)
    also have "\<dots> = real A * (2 powi (e - int k + D) * 2 ^ (k - sh))" by simp
    also have "\<dots> = X" by (simp only: pw X_def)
    finally have v: "\<bar>dval ?r\<bar> \<le> X" .
    have sg: "0 \<le> m \<longrightarrow> 0 \<le> sgn (m * c)" using c by (simp add: sgn_if mult_le_0_iff)
    show ?thesis
    proof (cases "q = 2 ^ 53")
      case True
      then have r: "?r = \<lparr> mant = sgn (m * c) * 2 ^ 52, expo = e - int k + D + 1 \<rparr>"
        using Dpos by (simp add: round64_dropped D_def[symmetric] q_def sh_def M_def)
      have "sh \<noteq> k"
      proof
        assume "sh = k"
        with qA have "q \<le> A" by simp
        with A53 True show False by simp
      qed
      with shk have "sh < k" by simp
      then have "e - int k + D + 1 \<le> 971" using e shD by simp
      moreover have "- 1074 \<le> e - int k + D + 1" using Dlo by simp
      moreover have "\<bar>sgn (m * c) * 2 ^ 52\<bar> < (2::int) ^ 53" by (simp add: sgn_if)
      ultimately have "is_double ?r" by (simp add: r is_double_def)
      moreover have "0 \<le> m \<longrightarrow> 0 \<le> mant ?r" using sg by (simp add: r)
      ultimately show ?thesis using v by simp
    next
      case False
      then have r: "?r = \<lparr> mant = sgn (m * c) * int q, expo = e - int k + D \<rparr>"
        using Dpos by (simp add: round64_dropped D_def[symmetric] q_def sh_def M_def)
      from False q53 have "q < 2 ^ 53" by simp
      then have "int q < 2 ^ 53" by (metis of_nat_less_iff of_nat_numeral of_nat_power)
      then have "\<bar>sgn (m * c) * int q\<bar> < 2 ^ 53" by (simp add: sgn_if)
      moreover have "- 1074 \<le> e - int k + D" using Dlo by simp
      moreover have "e - int k + D \<le> 971" using e Dk by simp
      ultimately have "is_double ?r" by (simp add: r is_double_def)
      moreover have "0 \<le> m \<longrightarrow> 0 \<le> mant ?r" using sg by (simp add: r)
      ultimately show ?thesis using v by simp
    qed
  qed
  from all show "is_double ?r" by simp
  from all show "\<bar>dval ?r\<bar> \<le> \<bar>of_int m\<bar> * 2 powi e" by (simp add: X_def absm P_def)
  from all show "0 \<le> m \<Longrightarrow> 0 \<le> mant ?r" by simp
qed

subsection \<open>One tick and many ticks\<close>

lemma two_powi_minus: "(2::real) powi (e - int k) = 2 powi e / 2 ^ k"
  by (simp add: power_int_diff)

lemma dval_nonneg: "0 \<le> mant d \<Longrightarrow> 0 \<le> dval d"
  by (simp add: dval_def)

lemma abs_dval: "\<bar>dval d\<bar> = \<bar>of_int (mant d)\<bar> * 2 powi (expo d)"
  by (simp add: dval_def abs_mult)

lemma dbl_mul_0_75: "dbl_mul x d_0_75 = round64 (mant x * 3) (expo x - int 2)"
  by (simp add: dbl_mul_def d_0_75_def)

lemma dbl_mul_0_9: "dbl_mul x d_0_9 = round64 (mant x * 8106479329266893) (expo x - int 53)"
  by (simp add: dbl_mul_def d_0_9_def)

lemma speed_step:
  assumes d: "is_double x" and n: "0 \<le> mant x"
  shows "is_double (dbl_mul x d_0_75)"
    and "0 \<le> mant (dbl_mul x d_0_75)"
    and "dval (dbl_mul x d_0_75) \<le> dval x"
    and "\<bar>dval (dbl_mul x d_0_75) - 0.75 * dval x\<bar> \<le> 0.75 * dval x / 2 ^ 53 + 2 powi (- 1075)"
proof -
  from d have m: "\<bar>mant x\<bar> < 2 ^ 53" and e: "- 1074 \<le> expo x" "expo x \<le> 971"
    by (simp_all add: is_double_def)
  have c: "(0::int) < 3" "(3::int) < 2 ^ 2" by simp_all
  show "is_double (dbl_mul x d_0_75)"
    unfolding dbl_mul_0_75 by (rule round64_contract(1)[OF m e c])
  show "0 \<le> mant (dbl_mul x d_0_75)"
    unfolding dbl_mul_0_75 by (rule round64_contract(3)[OF m e c n])
  have "dval (dbl_mul x d_0_75) \<le> \<bar>dval (dbl_mul x d_0_75)\<bar>" by simp
  also have "\<dots> \<le> \<bar>of_int (mant x)\<bar> * 2 powi (expo x)"
    unfolding dbl_mul_0_75 by (rule round64_contract(2)[OF m e c])
  also have "\<dots> = dval x" using n by (simp add: dval_def)
  finally show "dval (dbl_mul x d_0_75) \<le> dval x" .
  define eta where "eta = (2::real) powi (- 1075)"
  define E where "E = (of_int (mant x * 3) :: real) * 2 powi (expo x - int 2)"
  have pw: "(2::real) powi (expo x - int 2) = 2 powi (expo x) / 2 ^ 2" by (rule two_powi_minus)
  have E: "E = 0.75 * dval x" using pw by (simp add: E_def dval_def)
  have En: "\<bar>of_int (mant x * 3) :: real\<bar> * 2 powi (expo x - int 2) = 0.75 * dval x"
    using n pw by (simp add: dval_def abs_mult)
  have "\<bar>dval (round64 (mant x * 3) (expo x - int 2)) - E\<bar>
      \<le> \<bar>of_int (mant x * 3) :: real\<bar> * 2 powi (expo x - int 2) / 2 ^ 53 + eta"
    unfolding E_def eta_def by (rule round64_error)
  then have "\<bar>dval (dbl_mul x d_0_75) - 0.75 * dval x\<bar> \<le> 0.75 * dval x / 2 ^ 53 + eta"
    by (simp only: En E dbl_mul_0_75)
  then show "\<bar>dval (dbl_mul x d_0_75) - 0.75 * dval x\<bar> \<le> 0.75 * dval x / 2 ^ 53 + 2 powi (- 1075)"
    unfolding eta_def .
qed

lemma velocity_step:
  assumes d: "is_double x"
  shows "is_double (dbl_mul x d_0_9)"
    and "\<bar>dval (dbl_mul x d_0_9)\<bar> \<le> \<bar>dval x\<bar>"
    and "\<bar>dval (dbl_mul x d_0_9) - 0.9 * dval x\<bar> \<le> \<bar>dval x\<bar> / 2 ^ 52 + 2 powi (- 1075)"
proof -
  from d have m: "\<bar>mant x\<bar> < 2 ^ 53" and e: "- 1074 \<le> expo x" "expo x \<le> 971"
    by (simp_all add: is_double_def)
  have c: "(0::int) < 8106479329266893" "(8106479329266893::int) < 2 ^ 53" by simp_all
  show "is_double (dbl_mul x d_0_9)"
    unfolding dbl_mul_0_9 by (rule round64_contract(1)[OF m e c])
  show "\<bar>dval (dbl_mul x d_0_9)\<bar> \<le> \<bar>dval x\<bar>"
    unfolding dbl_mul_0_9 abs_dval[of x] by (rule round64_contract(2)[OF m e c])
  define eta where "eta = (2::real) powi (- 1075)"
  define a where "a = \<bar>dval x\<bar>"
  define T where "T = (2::real) ^ 53"
  define r where "r = dval (dbl_mul x d_0_9)"
  define E where "E = (of_int (mant x * 8106479329266893) :: real) * 2 powi (expo x - int 53)"
  have Tpos: "0 < T" by (simp add: T_def)
  have pw: "(2::real) powi (expo x - int 53) = 2 powi (expo x) / 2 ^ 53" by (rule two_powi_minus)
  have Ev: "E = dval x * (8106479329266893 / 2 ^ 53)"
    using pw by (simp add: E_def dval_def)
  have Eabs: "\<bar>of_int (mant x * 8106479329266893) :: real\<bar> * 2 powi (expo x - int 53) = \<bar>E\<bar>"
    by (simp add: E_def abs_mult)
  have "\<bar>E\<bar> = a * (8106479329266893 / 2 ^ 53)" by (simp add: Ev a_def abs_mult)
  also have "\<dots> \<le> a * 1" by (intro mult_left_mono) (simp_all add: a_def)
  finally have Ea: "\<bar>E\<bar> \<le> a" by simp
  have "E - 0.9 * dval x = dval x * (8106479329266893 / 2 ^ 53 - 0.9)"
    by (simp add: Ev algebra_simps)
  then have "\<bar>E - 0.9 * dval x\<bar> = a * \<bar>8106479329266893 / 2 ^ 53 - 0.9 :: real\<bar>"
    by (simp only: abs_mult a_def)
  also have "\<dots> \<le> a * (1 / 2 ^ 53)"
    by (intro mult_left_mono) (simp_all add: a_def)
  finally have Ed: "\<bar>E - 0.9 * dval x\<bar> \<le> a / T" by (simp add: T_def)
  have "\<bar>dval (round64 (mant x * 8106479329266893) (expo x - int 53)) - E\<bar>
      \<le> \<bar>of_int (mant x * 8106479329266893) :: real\<bar> * 2 powi (expo x - int 53) / 2 ^ 53 + eta"
    unfolding E_def eta_def by (rule round64_error)
  then have "\<bar>r - E\<bar> \<le> \<bar>E\<bar> / T + eta"
    by (simp only: Eabs dbl_mul_0_9 r_def T_def)
  moreover have "\<bar>E\<bar> / T \<le> a / T" using Ea Tpos by (simp add: divide_right_mono)
  ultimately have "\<bar>r - 0.9 * dval x\<bar> \<le> a / T + a / T + eta" using Ed by linarith
  also have "a / T + a / T = a / 2 ^ 52" by (simp add: T_def)
  finally show "\<bar>dval (dbl_mul x d_0_9) - 0.9 * dval x\<bar> \<le> \<bar>dval x\<bar> / 2 ^ 52 + 2 powi (- 1075)"
    unfolding r_def a_def eta_def .
qed

lemma ic_update_speed [simp]:
  "mouseSpeed (ic_update dt s) = dbl_mul (mouseSpeed s) d_0_75"
  by (simp add: ic_update_def)

lemma ic_update_velocity [simp]:
  "dx (mouseVelocity (ic_update dt s)) = dbl_mul (dx (mouseVelocity s)) d_0_9"
  "dy (mouseVelocity (ic_update dt s)) = dbl_mul (dy (mouseVelocity s)) d_0_9"
  by (simp_all add: ic_update_def v2_multiplyScalar_def)

lemma ticks_0 [simp]: "ticks 0 s = s"
  by (simp add: ticks_def)

lemma ticks_Suc: "ticks (Suc k) s = ic_update (1 / 60) (ticks k s)"
  by (simp add: ticks_def)

lemma ticks_speed:
  assumes "is_double (mouseSpeed s)" "0 \<le> mant (mouseSpeed s)"
  shows "is_double (mouseSpeed (ticks k s)) \<and> 0 \<le> mant (mouseSpeed (ticks k s))"
proof (induction k)
  case 0
  show ?case using assms by simp
next
  case (Suc k)
  then show ?case by (simp add: ticks_Suc speed_step(1,2) del: One_nat_def)
qed

lemma ticks_speed_bound:
  assumes d: "is_double (mouseSpeed s)" and n: "0 \<le> mant (mouseSpeed s)"
  shows "dval (mouseSpeed (ticks k s))
           \<le> dval (mouseSpeed s) * (0.75 * (1 + 1 / 2 ^ 53)) ^ k + 2 powi (- 1072)"
proof -
  define eta where "eta = (2::real) powi (- 1075)"
  define B where "B = (2::real) powi (- 1072)"
  define q where "q = (0.75::real) * (1 + 1 / 2 ^ 53)"
  define a where "a = dval (mouseSpeed s)"
  have Beta: "B = eta * 8"
  proof -
    have "(2::real) powi (- 1075 + 3) = 2 powi (- 1075) * 2 ^ nat 3"
      by (rule two_powi_shift) simp
    then show ?thesis by (simp add: B_def eta_def)
  qed
  have etapos: "0 < eta" by (simp add: eta_def)
  have q78: "q \<le> 7 / 8" by (simp add: q_def)
  have qpos: "0 \<le> q" by (simp add: q_def)
  have "dval (mouseSpeed (ticks k s)) \<le> a * q ^ k + B"
  proof (induction k)
    case 0
    show ?case using etapos by (simp add: a_def Beta)
  next
    case (Suc k)
    let ?x = "mouseSpeed (ticks k s)"
    from ticks_speed[OF d n, of k] have dk: "is_double ?x" and nk: "0 \<le> mant ?x" by simp_all
    have "\<bar>dval (dbl_mul ?x d_0_75) - 0.75 * dval ?x\<bar> \<le> 0.75 * dval ?x / 2 ^ 53 + eta"
      unfolding eta_def by (rule speed_step(4)[OF dk nk])
    then have "dval (dbl_mul ?x d_0_75) \<le> 0.75 * dval ?x + 0.75 * dval ?x / 2 ^ 53 + eta"
      by linarith
    also have "0.75 * dval ?x + 0.75 * dval ?x / 2 ^ 53 = q * dval ?x"
      by (simp add: q_def algebra_simps)
    finally have "dval (mouseSpeed (ticks (Suc k) s)) \<le> q * dval ?x + eta"
      by (simp add: ticks_Suc del: One_nat_def)
    also have "q * dval ?x \<le> q * (a * q ^ k + B)"
      using Suc.IH qpos by (rule mult_left_mono)
    also have "q * (a * q ^ k + B) + eta = a * q ^ Suc k + (q * B + eta)"
      by (simp add: algebra_simps)
    also have "q * B + eta \<le> B"
    proof -
      have "q * B \<le> 7 / 8 * B" using q78 etapos by (intro mult_right_mono) (simp_all add: Beta)
      then show ?thesis by (simp add: Beta)
    qed
    finally show ?case by simp
  qed
  then show ?thesis unfolding a_def q_def B_def .
qed

lemma ticks_velocity:
  assumes "is_double (dx (mouseVelocity s))" "is_double (dy (mouseVelocity s))"
  shows "is_double (dx (mouseVelocity (ticks k s))) \<and> is_double (dy (mouseVelocity (ticks k s))) \<and>
         \<bar>dval (dx (mouseVelocity (ticks k s)))\<bar> \<le> \<bar>dval (dx (mouseVelocity s))\<bar> \<and>
         \<bar>dval (dy (mouseVelocity (ticks k s)))\<bar> \<le> \<bar>dval (dy (mouseVelocity s))\<bar>"
proof (induction k)
  case 0
  show ?case using assms by simp
next
  case (Suc k)
  let ?x = "dx (mouseVelocity (ticks k s))" and ?y = "dy (mouseVelocity (ticks k s))"
  from Suc have dxk: "is_double ?x" and dyk: "is_double ?y"
    and bx: "\<bar>dval ?x\<bar> \<le> \<bar>dval (dx (mouseVelocity s))\<bar>"
    and by': "\<bar>dval ?y\<bar> \<le> \<bar>dval (dy (mouseVelocity s))\<bar>" by simp_all
  have "\<bar>dval (dbl_mul ?x d_0_9)\<bar> \<le> \<bar>dval (dx (mouseVelocity s))\<bar>"
    using velocity_step(2)[OF dxk] bx by linarith
  moreover have "\<bar>dval (dbl_mul ?y d_0_9)\<bar> \<le> \<bar>dval (dy (mouseVelocity s))\<bar>"
    using velocity_step(2)[OF dyk] by' by linarith
  ultimately show ?case
    using velocity_step(1)[OF dxk] velocity_step(1)[OF dyk]
    by (simp add: ticks_Suc del: One_nat_def)
qed

lemma mant_nonneg: "0 \<le> dval d \<Longrightarrow> 0 \<le> mant d"
  using two_powi_pos[of "expo d"]
  by (auto simp add: dval_def zero_le_mult_iff simp del: two_powi_pos)

lemma speed_step_exact:
  assumes m: "\<bar>mant x\<bar> * 3 < 2 ^ 53" and e: "- 1072 \<le> expo x"
  shows "dbl_mul x d_0_75 = \<lparr> mant = mant x * 3, expo = expo x - 2 \<rparr>"
    and "dval (dbl_mul x d_0_75) = 0.75 * dval x"
proof -
  have "nat \<bar>mant x * 3\<bar> < 2 ^ 53" using m by (simp add: abs_mult nat_less_iff)
  then have "bit_length (nat \<bar>mant x * 3\<bar>) \<le> 53" by (rule bit_length_le)
  then have "dropped (mant x * 3) (expo x - int 2) \<le> 0" using e by (simp add: dropped_def)
  then have r: "round64 (mant x * 3) (expo x - int 2) = \<lparr> mant = mant x * 3, expo = expo x - int 2 \<rparr>"
    by (rule round64_exact)
  then show eq: "dbl_mul x d_0_75 = \<lparr> mant = mant x * 3, expo = expo x - 2 \<rparr>"
    by (simp add: dbl_mul_0_75)
  have pw: "(2::real) powi (expo x - int 2) = 2 powi (expo x) / 2 ^ 2" by (rule two_powi_minus)
  show "dval (dbl_mul x d_0_75) = 0.75 * dval x"
    using pw by (simp add: eq dval_def)
qed


lemma moving_fields [simp]:
  "mouseSpeed (moving sp vx vy) = sp"
  "dx (mouseVelocity (moving sp vx vy)) = vx"
  "dy (mouseVelocity (moving sp vx vy)) = vy"
  by (simp_all add: moving_def)

lemma bit_length_3: "bit_length 3 = 2"
  using bit_length_eqI[of 1 3] by simp

lemma bit_length_tenth: "bit_length 21617278211378382 = 55"
  using bit_length_eqI[of 54 21617278211378382] by simp

lemma smallest_speed_step: "dbl_mul d_min d_0_75 = d_min"
  by (simp add: dbl_mul_def d_min_def d_0_75_def round64_def dropped_def round_half_even_def Let_def
        bit_length_3)

lemma smallest_speed_stays: "mouseSpeed (ticks k (moving d_min vx vy)) = d_min"
  by (induction k) (simp_all add: ticks_Suc smallest_speed_step del: One_nat_def)



section \<open>The camera transition engine\<close>

lemma fold_tween_kill:
  "fold tween_kill ids c =
     c\<lparr> gsap_tweens := filter (\<lambda>tw. tw_id tw \<notin> set ids) (gsap_tweens c) \<rparr>"
proof (induction ids arbitrary: c)
  case Nil
  then show ?case by simp
next
  case (Cons i ids)
  have "fold tween_kill (i # ids) c = fold tween_kill ids (tween_kill i c)" by simp
  also have "\<dots> = (tween_kill i c)\<lparr> gsap_tweens :=
      filter (\<lambda>tw. tw_id tw \<notin> set ids) (gsap_tweens (tween_kill i c)) \<rparr>"
    by (rule Cons.IH)
  also have "\<dots> = c\<lparr> gsap_tweens := filter (\<lambda>tw. tw_id tw \<notin> set (i # ids)) (gsap_tweens c) \<rparr>"
    by (simp add: tween_kill_def conj_commute)
  finally show ?case .
qed

lemma killAllTweens_eq:
  "killAllTweens c =
     c\<lparr> activeTweens := [],
        gsap_tweens :=
          filter (\<lambda>tw. tw_target tw \<noteq> ControlsTarget)
            (filter (\<lambda>tw. tw_target tw \<noteq> CameraPosition)
               (filter (\<lambda>tw. tw_id tw \<notin> set (activeTweens c)) (gsap_tweens c))) \<rparr>"
  by (simp add: killAllTweens_def gsap_killTweensOf_def fold_tween_kill)

lemma killAllTweens_camera_tweens: "camera_tweens (killAllTweens c) = []"
  by (auto simp add: killAllTweens_eq camera_tweens_def filter_empty_conv)

lemma killAllTweens_fields:
  "activeTweens (killAllTweens c) = []"
  "gsap_next (killAllTweens c) = gsap_next c"
  "set (gsap_tweens (killAllTweens c)) \<subseteq> set (gsap_tweens c)"
  by (auto simp add: killAllTweens_eq)

lemma gsap_to_camera_tweens:
  "tgt = CameraPosition \<or> tgt = ControlsTarget \<Longrightarrow>
   camera_tweens (snd (gsap_to tgt dest dur cb c)) =
     camera_tweens c @ [\<lparr> tw_id = gsap_next c, tw_target = tgt, tw_to = dest,
                          tw_duration = dur, tw_onComplete = cb \<rparr>]"
  by (auto simp add: gsap_to_def camera_tweens_def)

lemma cc_focusOnBody_None:
  "cc_focusOnBody None d h c =
     (Some TypeError,
      (killAllTweens c)\<lparr> isTransitioning := True, focusedBody := None,
                          mouseViewEnabled := False \<rparr>)"
  by (simp add: cc_focusOnBody_def)

lemma cc_focusOnBody_Some:
  "fst (cc_focusOnBody (Some b) d h c) = None"
  "gsap_tweens (snd (cc_focusOnBody (Some b) d h c)) =
     gsap_tweens (killAllTweens c) @
       [\<lparr> tw_id = gsap_next c, tw_target = CameraPosition,
          tw_to = v3_add (worldPosition (h b))
                    (v3_multiplyScalar (calculateFocusDistance c (radius (h b)) 0.6)
                       (v3_normalize \<lparr> v3x = 0.5, v3y = 0.3, v3z = 1 \<rparr>)),
          tw_duration = d, tw_onComplete = NoCallback \<rparr>,
        \<lparr> tw_id = Suc (gsap_next c), tw_target = ControlsTarget,
          tw_to = worldPosition (h b), tw_duration = d, tw_onComplete = FocusComplete b \<rparr>]"
  "activeTweens (snd (cc_focusOnBody (Some b) d h c)) = [gsap_next c, Suc (gsap_next c)]"
  "gsap_next (snd (cc_focusOnBody (Some b) d h c)) = Suc (Suc (gsap_next c))"
  "isTransitioning (snd (cc_focusOnBody (Some b) d h c))"
  "focusedBody (snd (cc_focusOnBody (Some b) d h c)) = Some b"
  "\<not> controls_enabled (snd (cc_focusOnBody (Some b) d h c))"
  "\<not> mouseViewEnabled (snd (cc_focusOnBody (Some b) d h c))"
  by (simp_all add: cc_focusOnBody_def gsap_to_def Let_def killAllTweens_eq
        calculateFocusDistance_def)

lemma cc_returnToOverview_fields:
  "gsap_tweens (cc_returnToOverview d c) =
     gsap_tweens (killAllTweens c) @
       [\<lparr> tw_id = gsap_next c, tw_target = CameraPosition, tw_to = defaultPosition c,
          tw_duration = d, tw_onComplete = NoCallback \<rparr>,
        \<lparr> tw_id = Suc (gsap_next c), tw_target = ControlsTarget, tw_to = defaultTarget c,
          tw_duration = d, tw_onComplete = OverviewComplete \<rparr>]"
  "activeTweens (cc_returnToOverview d c) = [gsap_next c, Suc (gsap_next c)]"
  "gsap_next (cc_returnToOverview d c) = Suc (Suc (gsap_next c))"
  "isTransitioning (cc_returnToOverview d c)"
  "focusedBody (cc_returnToOverview d c) = None"
  "\<not> controls_enabled (cc_returnToOverview d c)"
  "\<not> mouseViewEnabled (cc_returnToOverview d c)"
  by (simp_all add: cc_returnToOverview_def gsap_to_def Let_def killAllTweens_eq)

lemma camera_tweens_append:
  "gsap_tweens c' = gsap_tweens (killAllTweens c) @ ts \<Longrightarrow>
   list_all (\<lambda>tw. tw_target tw = CameraPosition \<or> tw_target tw = ControlsTarget) ts \<Longrightarrow>
   camera_tweens c' = ts"
  using killAllTweens_camera_tweens[of c]
  by (simp add: camera_tweens_def list_all_iff filter_id_conv)

lemma prior_tweens_gone:
  assumes al: "tweens_allocated c"
    and g: "gsap_tweens c' = gsap_tweens (killAllTweens c) @ ts"
    and n: "list_all (\<lambda>tw. gsap_next c \<le> tw_id tw) ts"
  shows "list_all (\<lambda>tw. tw \<notin> set (gsap_tweens c')) (camera_tweens c)"
proof -
  have "tw \<notin> set (gsap_tweens c')" if m: "tw \<in> set (camera_tweens c)" for tw
  proof
    assume "tw \<in> set (gsap_tweens c')"
    then have "tw \<in> set (gsap_tweens (killAllTweens c)) \<or> tw \<in> set ts" by (simp add: g)
    then show False
    proof
      assume "tw \<in> set (gsap_tweens (killAllTweens c))"
      with m show False by (auto simp add: killAllTweens_eq camera_tweens_def)
    next
      assume "tw \<in> set ts"
      with n have "gsap_next c \<le> tw_id tw" by (simp add: list_all_iff)
      moreover from m al have "tw_id tw < gsap_next c"
        by (auto simp add: camera_tweens_def tweens_allocated_def list_all_iff)
      ultimately show False by simp
    qed
  qed
  then show ?thesis by (simp add: list_all_iff)
qed

lemma tweens_allocated_after:
  assumes al: "tweens_allocated c"
    and g: "gsap_tweens c' = gsap_tweens (killAllTweens c) @ ts"
    and n: "list_all (\<lambda>tw. tw_id tw < gsap_next c') ts"
    and m: "gsap_next c \<le> gsap_next c'"
  shows "tweens_allocated c'"
proof -
  have "tw_id tw < gsap_next c'" if "tw \<in> set (gsap_tweens (killAllTweens c))" for tw
  proof -
    from that killAllTweens_fields(3)[of c] have "tw \<in> set (gsap_tweens c)" by blast
    with al have "tw_id tw < gsap_next c" by (simp add: tweens_allocated_def list_all_iff)
    with m show ?thesis by simp
  qed
  with n show ?thesis by (auto simp add: tweens_allocated_def g list_all_iff)
qed

text \<open>
  Claim C7 (cancellation before registration). \<open>killAllTweens\<close>, the first statement of
  both \<open>focusOnBody\<close> and \<open>returnToOverview\<close>, leaves no live tween on the camera position
  or on the controls target and empties \<open>activeTweens\<close>; each \<open>gsap.to\<close> that follows
  only adds its own tween. After either call (also after a \<open>focusOnBody\<close> that fails on
  an absent body) the live tweens on the two objects are exactly the two the call
  created, one per object, and they are the ones recorded in \<open>activeTweens\<close>. With tween
  references handed out in increasing order, no tween that animated the camera before
  the call is live after it: tweens of two transitions are never live together.
\<close>

theorem cancellation_before_registration:
  "camera_tweens (killAllTweens c) = [] \<and>
   activeTweens (killAllTweens c) = [] \<and>
   (tgt = CameraPosition \<or> tgt = ControlsTarget \<longrightarrow>
      camera_tweens (snd (gsap_to tgt dest dur cb c)) =
        camera_tweens c @ [\<lparr> tw_id = gsap_next c, tw_target = tgt, tw_to = dest,
                             tw_duration = dur, tw_onComplete = cb \<rparr>]) \<and>
   camera_tweens (snd (cc_focusOnBody None d h c)) = [] \<and>
   map tw_id (camera_tweens (snd (cc_focusOnBody (Some b) d h c)))
     = [gsap_next c, Suc (gsap_next c)] \<and>
   map tw_target (camera_tweens (snd (cc_focusOnBody (Some b) d h c)))
     = [CameraPosition, ControlsTarget] \<and>
   map tw_onComplete (camera_tweens (snd (cc_focusOnBody (Some b) d h c)))
     = [NoCallback, FocusComplete b] \<and>
   activeTweens (snd (cc_focusOnBody (Some b) d h c)) = [gsap_next c, Suc (gsap_next c)] \<and>
   map tw_id (camera_tweens (cc_returnToOverview d c)) = [gsap_next c, Suc (gsap_next c)] \<and>
   map tw_target (camera_tweens (cc_returnToOverview d c)) = [CameraPosition, ControlsTarget] \<and>
   map tw_onComplete (camera_tweens (cc_returnToOverview d c)) = [NoCallback, OverviewComplete] \<and>
   activeTweens (cc_returnToOverview d c) = [gsap_next c, Suc (gsap_next c)] \<and>
   (tweens_allocated c \<longrightarrow>
      list_all (\<lambda>tw. tw \<notin> set (gsap_tweens (snd (cc_focusOnBody (Some b) d h c))))
        (camera_tweens c) \<and>
      list_all (\<lambda>tw. tw \<notin> set (gsap_tweens (cc_returnToOverview d c))) (camera_tweens c) \<and>
      tweens_allocated (snd (cc_focusOnBody (Some b) d h c)) \<and>
      tweens_allocated (cc_returnToOverview d c))"
proof -
  let ?f = "snd (cc_focusOnBody (Some b) d h c)"
  let ?r = "cc_returnToOverview d c"
  note gf = cc_focusOnBody_Some(2)[of b d h c]
  note gr = cc_returnToOverview_fields(1)[of d c]
  have k: "camera_tweens (killAllTweens c) = []" "activeTweens (killAllTweens c) = []"
    by (simp_all add: killAllTweens_camera_tweens killAllTweens_fields)
  have n: "camera_tweens (snd (cc_focusOnBody None d h c)) = []"
    using killAllTweens_camera_tweens[of c]
    by (simp add: cc_focusOnBody_None camera_tweens_def)
  have cf: "camera_tweens ?f = drop (length (gsap_tweens (killAllTweens c))) (gsap_tweens ?f)"
    unfolding gf by (subst camera_tweens_append[OF gf]) simp_all
  have cr: "camera_tweens ?r = drop (length (gsap_tweens (killAllTweens c))) (gsap_tweens ?r)"
    unfolding gr by (subst camera_tweens_append[OF gr]) simp_all
  have f: "map tw_id (camera_tweens ?f) = [gsap_next c, Suc (gsap_next c)]"
    "map tw_target (camera_tweens ?f) = [CameraPosition, ControlsTarget]"
    "map tw_onComplete (camera_tweens ?f) = [NoCallback, FocusComplete b]"
    unfolding cf gf by simp_all
  have r: "map tw_id (camera_tweens ?r) = [gsap_next c, Suc (gsap_next c)]"
    "map tw_target (camera_tweens ?r) = [CameraPosition, ControlsTarget]"
    "map tw_onComplete (camera_tweens ?r) = [NoCallback, OverviewComplete]"
    unfolding cr gr by simp_all
  have a: "list_all (\<lambda>tw. tw \<notin> set (gsap_tweens ?f)) (camera_tweens c) \<and>
      list_all (\<lambda>tw. tw \<notin> set (gsap_tweens ?r)) (camera_tweens c) \<and>
      tweens_allocated ?f \<and> tweens_allocated ?r" if al: "tweens_allocated c"
  proof (intro conjI)
    show "list_all (\<lambda>tw. tw \<notin> set (gsap_tweens ?f)) (camera_tweens c)"
      by (rule prior_tweens_gone[OF al gf]) simp
    show "list_all (\<lambda>tw. tw \<notin> set (gsap_tweens ?r)) (camera_tweens c)"
      by (rule prior_tweens_gone[OF al gr]) simp
    show "tweens_allocated ?f"
      by (rule tweens_allocated_after[OF al gf]) (simp_all add: cc_focusOnBody_Some)
    show "tweens_allocated ?r"
      by (rule tweens_allocated_after[OF al gr]) (simp_all add: cc_returnToOverview_fields)
  qed
  from k n f r a gsap_to_camera_tweens[of tgt dest dur cb c]
    cc_focusOnBody_Some(3)[of b d h c] cc_returnToOverview_fields(2)[of d c]
  show ?thesis by blast
qed

theorem cancellation_before_registration_witness:
  "tweens_allocated (snd (cc_focusOnBody (Some 0) 1.2 demo_heap (new_CameraController 60))) \<and>
   map tw_id (camera_tweens (snd (cc_focusOnBody (Some 0) 1.2 demo_heap (new_CameraController 60))))
     = [0, 1] \<and>
   map tw_id (camera_tweens (cc_returnToOverview 1.2
       (snd (cc_focusOnBody (Some 0) 1.2 demo_heap (new_CameraController 60))))) = [2, 3] \<and>
   list_all (\<lambda>tw. tw \<notin> set (gsap_tweens (cc_returnToOverview 1.2
       (snd (cc_focusOnBody (Some 0) 1.2 demo_heap (new_CameraController 60))))))
     (camera_tweens (snd (cc_focusOnBody (Some 0) 1.2 demo_heap (new_CameraController 60)))) \<and>
   camera_tweens (snd (gsap_to CameraPosition \<lparr> v3x = 0, v3y = 80, v3z = 200 \<rparr> 1.2 NoCallback
       (new_CameraController 60)))
     = [\<lparr> tw_id = 0, tw_target = CameraPosition, tw_to = \<lparr> v3x = 0, v3y = 80, v3z = 200 \<rparr>,
          tw_duration = 1.2, tw_onComplete = NoCallback \<rparr>]"
proof -
  let ?c0 = "new_CameraController 60"
  let ?c1 = "snd (cc_focusOnBody (Some 0) 1.2 demo_heap ?c0)"
  have a0: "tweens_allocated ?c0" and n0: "gsap_next ?c0 = 0" and t0: "camera_tweens ?c0 = []"
    by (simp_all add: tweens_allocated_def new_CameraController_def camera_tweens_def)
  have tg: "CameraPosition = CameraPosition \<or> CameraPosition = ControlsTarget" by simp
  from cancellation_before_registration
         [where c = ?c0 and tgt = CameraPosition and dest = "\<lparr> v3x = 0, v3y = 80, v3z = 200 \<rparr>"
            and dur = "1.2" and cb = NoCallback and d = "1.2" and h = demo_heap and b = 0]
       a0 tg
  have a1: "tweens_allocated ?c1"
    and i1: "map tw_id (camera_tweens ?c1) = [gsap_next ?c0, Suc (gsap_next ?c0)]"
    and g1: "camera_tweens (snd (gsap_to CameraPosition \<lparr> v3x = 0, v3y = 80, v3z = 200 \<rparr> 1.2 NoCallback ?c0))
       = camera_tweens ?c0 @ [\<lparr> tw_id = gsap_next ?c0, tw_target = CameraPosition,
            tw_to = \<lparr> v3x = 0, v3y = 80, v3z = 200 \<rparr>, tw_duration = 1.2, tw_onComplete = NoCallback \<rparr>]"
    by blast+
  have n1: "gsap_next ?c1 = 2" by (simp add: cc_focusOnBody_Some n0)
  from cancellation_before_registration
         [where c = ?c1 and tgt = CameraPosition and dest = "\<lparr> v3x = 0, v3y = 80, v3z = 200 \<rparr>"
            and dur = "1.2" and cb = NoCallback and d = "1.2" and h = demo_heap and b = 0]
       a1
  have i2: "map tw_id (camera_tweens (cc_returnToOverview 1.2 ?c1)) = [gsap_next ?c1, Suc (gsap_next ?c1)]"
    and l2: "list_all (\<lambda>tw. tw \<notin> set (gsap_tweens (cc_returnToOverview 1.2 ?c1))) (camera_tweens ?c1)"
    by blast+
  from a1 i1 i2 l2 g1 n0 n1 t0 show ?thesis by simp
qed

text \<open>
  Claim C3 (focus on an absent body), as the code has it. \<open>focusOnBody\<close> does not check
  its argument. Called with an absent body it raises a \<open>TypeError\<close>; no notification
  fires, and the bodies (hence every perturbation effect), the camera transition engine
  and the pending timers are as before; but \<open>state\<close> has been set to \<open>TRANSITION\<close> and
  \<open>selectedBody\<close> to the absent value. The guard is in the click handler, which never
  passes an absent body: a click that hits nothing, or a mesh that carries no body,
  changes nothing. The camera controller's own \<open>focusOnBody\<close> likewise raises only
  after it has cancelled the tweens and written three fields.
\<close>

theorem focus_absent_body:
  "focusOnBody None now s = (Some TypeError, s\<lparr> ic_state := TRANSITION, selectedBody := None \<rparr>) \<and>
   notifications (snd (focusOnBody None now s)) = notifications s \<and>
   bodies (snd (focusOnBody None now s)) = bodies s \<and>
   cameraController (snd (focusOnBody None now s)) = cameraController s \<and>
   timers (snd (focusOnBody None now s)) = timers s \<and>
   onClick [] now s = (None, s) \<and>
   onClick (None # hits) now s = (None, s) \<and>
   cc_focusOnBody None d h c =
     (Some TypeError,
      (killAllTweens c)\<lparr> isTransitioning := True, focusedBody := None,
                          mouseViewEnabled := False \<rparr>)"
  by (simp add: focusOnBody_def onClick_def cc_focusOnBody_None)

text \<open>
  The state does change: an idle controller is left in \<open>TRANSITION\<close>, and a controller
  focused on a body loses its selection.
\<close>

theorem focus_absent_body_counterexample:
  "ic_state demo_controller = GLOBAL \<and>
   ic_state (snd (focusOnBody None 0 demo_controller)) = TRANSITION \<and>
   selectedBody (demo_controller\<lparr> ic_state := FOCUS, selectedBody := Some 3 \<rparr>) = Some 3 \<and>
   selectedBody
     (snd (focusOnBody None 0 (demo_controller\<lparr> ic_state := FOCUS, selectedBody := Some 3 \<rparr>)))
     = None"
  by (simp add: focusOnBody_def demo_controller_def new_InteractionController_def)

section \<open>The interaction state machine\<close>

lemma insort_key_snoc:
  "f a \<le> f x \<Longrightarrow> insort_key f a (zs @ [x]) = insort_key f a zs @ [x]"
  by (induction zs) simp_all

lemma sort_key_snoc:
  "\<forall>y\<in>set ys. f y \<le> f x \<Longrightarrow> sort_key f (ys @ [x]) = sort_key f ys @ [x]"
  by (induction ys) (simp_all add: insort_key_snoc)

lemma fire_timer_flags:
  "onStateChange (fire_timer cb s) = onStateChange s"
  "onBodySelect (fire_timer cb s) = onBodySelect s"
  "timers (fire_timer cb s) = timers s"
  by (cases cb; simp add: call_onStateChange_def call_onBodySelect_def)+

lemma fold_fire_timer_flags:
  "onStateChange (fold fire_timer cbs s) = onStateChange s \<and>
   onBodySelect (fold fire_timer cbs s) = onBodySelect s \<and>
   timers (fold fire_timer cbs s) = timers s"
  by (induction cbs arbitrary: s) (simp_all add: fire_timer_flags)

lemma advance_flags:
  "onStateChange (advance t s) = onStateChange s"
  "onBodySelect (advance t s) = onBodySelect s"
  "timers (advance t s) = filter (\<lambda>p. \<not> fst p \<le> t) (timers s)"
  by (simp_all add: advance_def fold_fire_timer_flags)

lemma advance_last:
  assumes "d \<le> t" and "\<forall>p\<in>set ts. fst p \<le> t \<longrightarrow> fst p \<le> d"
  shows "advance t (s\<lparr> timers := ts @ [(d, cb)] \<rparr>) = fire_timer cb (advance t (s\<lparr> timers := ts \<rparr>))"
proof -
  let ?due = "filter (\<lambda>p. fst p \<le> t) ts"
  have "\<forall>y\<in>set ?due. fst y \<le> fst (d, cb)" using assms by simp
  then have "sort_key fst (?due @ [(d, cb)]) = sort_key fst ?due @ [(d, cb)]"
    by (rule sort_key_snoc)
  then show ?thesis using assms(1) by (simp add: advance_def)
qed

lemma advance_nothing_due:
  "\<forall>p\<in>set (timers s). \<not> fst p \<le> t \<Longrightarrow> advance t s = s"
  by (simp add: advance_def filter_empty_conv filter_id_conv)

lemma returnToGlobal_fields:
  "ic_state (returnToGlobal now s) = TRANSITION"
  "selectedBody (returnToGlobal now s) = selectedBody s"
  "notifications (returnToGlobal now s) =
     notifications s @ (if onStateChange s then [StateChange TRANSITION None] else [])"
  "cameraController (returnToGlobal now s) = cc_returnToOverview 1.2 (cameraController s)"
  "timers (returnToGlobal now s) = timers s @ [(now + 1200, GlobalTimeout)]"
  "onStateChange (returnToGlobal now s) = onStateChange s"
  by (simp_all add: returnToGlobal_def Let_def call_onStateChange_def setTimeout_def
        split: option.splits)

lemma returnToGlobal_bodies:
  "bodies (returnToGlobal now s) =
     (case selectedBody s of
        None \<Rightarrow> bodies s
      | Some b \<Rightarrow> if hasSetPerturbation (bodies s b)
                  then (bodies s)(b := setPerturbation False 0.1 (bodies s b))
                  else bodies s)"
  by (simp add: returnToGlobal_def Let_def call_onStateChange_def setTimeout_def
        split: option.splits)

lemma advance_returnToGlobal:
  "advance (now + 1200) (returnToGlobal now s) =
     fire_timer GlobalTimeout (advance (now + 1200) ((returnToGlobal now s)\<lparr> timers := timers s \<rparr>))"
proof -
  let ?r = "returnToGlobal now s"
  have "?r\<lparr> timers := timers s @ [(now + 1200, GlobalTimeout)] \<rparr> = ?r\<lparr> timers := timers ?r \<rparr>"
    by (simp only: returnToGlobal_fields(5))
  also have "\<dots> = ?r" by simp
  finally have "?r = ?r\<lparr> timers := timers s @ [(now + 1200, GlobalTimeout)] \<rparr>"
    by (rule sym)
  then have "advance (now + 1200) ?r =
      advance (now + 1200) (?r\<lparr> timers := timers s @ [(now + 1200, GlobalTimeout)] \<rparr>)"
    by (rule arg_cong)
  also have "\<dots> = fire_timer GlobalTimeout (advance (now + 1200) (?r\<lparr> timers := timers s \<rparr>))"
    by (rule advance_last) simp_all
  finally show ?thesis .
qed

lemma case_cc_focusOnBody:
  "(case cc_focusOnBody (Some b) d h c of (err, cc) \<Rightarrow> f err cc) =
     f None (snd (cc_focusOnBody (Some b) d h c))"
  using cc_focusOnBody_Some(1)[of b d h c]
  by (cases "cc_focusOnBody (Some b) d h c") simp

lemma focusOnBody_Some:
  "fst (focusOnBody (Some b) now s) = None"
  "ic_state (snd (focusOnBody (Some b) now s)) = TRANSITION"
  "selectedBody (snd (focusOnBody (Some b) now s)) = Some b"
  "notifications (snd (focusOnBody (Some b) now s)) =
     notifications s @ (if onStateChange s then [StateChange TRANSITION (Some b)] else [])"
  "timers (snd (focusOnBody (Some b) now s)) = timers s @ [(now + 1200, FocusTimeout b)]"
  "onStateChange (snd (focusOnBody (Some b) now s)) = onStateChange s"
  "onBodySelect (snd (focusOnBody (Some b) now s)) = onBodySelect s"
  by (simp_all add: focusOnBody_def Let_def call_onStateChange_def setTimeout_def
        case_cc_focusOnBody)


lemma fire_GlobalTimeout:
  "ic_state (fire_timer GlobalTimeout s) = GLOBAL"
  "selectedBody (fire_timer GlobalTimeout s) = None"
  "notifications (fire_timer GlobalTimeout s) =
     notifications s @ (if onStateChange s then [StateChange GLOBAL None] else [])"
  by (simp_all add: call_onStateChange_def)

text \<open>
  What a return to the overview does. The right-click listener calls it in \<open>FOCUS\<close>, the
  Escape key in \<open>FOCUS\<close> and in \<open>TRANSITION\<close>. It disables the perturbation of the
  selected body, sets the state to \<open>TRANSITION\<close>, reports that state change (with no
  body) if a callback is installed, hands over to the camera controller's
  \<open>returnToOverview\<close> with a duration of 1.2 seconds and registers a timer 1200 ms ahead.
  Once the event loop has reached that time, the state is \<open>GLOBAL\<close>, no body is selected,
  and the last notification is the state change to \<open>GLOBAL\<close>. The selected body is kept
  until that timer runs.
\<close>

lemma returnToGlobal_effects:
  "(ic_state s = FOCUS \<longrightarrow> onContextMenu now s = returnToGlobal now s) \<and>
   (ic_state s = FOCUS \<or> ic_state s = TRANSITION \<longrightarrow>
      onKeyDown ''Escape'' now s = returnToGlobal now s) \<and>
   (selectedBody s = Some b \<and> hasSetPerturbation (bodies s b) \<longrightarrow>
      perturbStrength (bodies (returnToGlobal now s) b) = 0 \<and>
      b_uPerturbStrength (bodies (returnToGlobal now s) b) = 0) \<and>
   ic_state (returnToGlobal now s) = TRANSITION \<and>
   notifications (returnToGlobal now s) =
     notifications s @ (if onStateChange s then [StateChange TRANSITION None] else []) \<and>
   cameraController (returnToGlobal now s) = cc_returnToOverview 1.2 (cameraController s) \<and>
   timers (returnToGlobal now s) = timers s @ [(now + 1200, GlobalTimeout)] \<and>
   ic_state (advance (now + 1200) (returnToGlobal now s)) = GLOBAL \<and>
   selectedBody (advance (now + 1200) (returnToGlobal now s)) = None \<and>
   (onStateChange s \<longrightarrow>
      last (notifications (advance (now + 1200) (returnToGlobal now s))) = StateChange GLOBAL None)"
proof -
  let ?r = "returnToGlobal now s"
  let ?m = "advance (now + 1200) (?r\<lparr> timers := timers s \<rparr>)"
  have h: "(ic_state s = FOCUS \<longrightarrow> onContextMenu now s = ?r) \<and>
      (ic_state s = FOCUS \<or> ic_state s = TRANSITION \<longrightarrow> onKeyDown ''Escape'' now s = ?r)"
    by (simp add: onContextMenu_def onKeyDown_def)
  have p: "perturbStrength (bodies ?r b) = 0 \<and> b_uPerturbStrength (bodies ?r b) = 0"
    if "selectedBody s = Some b \<and> hasSetPerturbation (bodies s b)"
    using that by (simp add: returnToGlobal_bodies setPerturbation_def)
  have a: "ic_state (advance (now + 1200) ?r) = GLOBAL"
    "selectedBody (advance (now + 1200) ?r) = None"
    by (simp_all only: advance_returnToGlobal fire_GlobalTimeout)
  have f: "onStateChange ?m = onStateChange s"
    by (simp add: advance_flags returnToGlobal_fields)
  have l: "last (notifications (advance (now + 1200) ?r)) = StateChange GLOBAL None"
    if "onStateChange s"
    using that f by (simp add: advance_returnToGlobal fire_GlobalTimeout del: fire_timer.simps)
  from h p a l returnToGlobal_fields[of now s] show ?thesis by blast
qed

lemma focusOnBody_bodies:
  "bodies (snd (focusOnBody (Some b) now s)) =
     (if hasSetPerturbation (bodies s b)
      then (bodies s)(b := setPerturbation True 0.15 (bodies s b))
      else bodies s)"
  by (simp add: focusOnBody_def Let_def call_onStateChange_def setTimeout_def
        case_cc_focusOnBody)

lemma advance_bodies: "bodies (advance t s) = bodies s"
proof -
  have "bodies (fold fire_timer cbs x) = bodies x" for cbs x
  proof (induction cbs arbitrary: x)
    case Nil
    then show ?case by simp
  next
    case (Cons cb cbs)
    have "bodies (fire_timer cb x) = bodies x"
      by (cases cb) (simp_all add: call_onStateChange_def call_onBodySelect_def)
    with Cons.IH[of "fire_timer cb x"] show ?case by simp
  qed
  then show ?thesis by (simp add: advance_def)
qed

lemma advance_single:
  "timers s = [(d, cb)] \<Longrightarrow> d \<le> t \<Longrightarrow> advance t s = fire_timer cb (s\<lparr> timers := [] \<rparr>)"
  by (simp add: advance_def)

lemma advance_pair:
  assumes "timers s = [(d1, cb1), (d2, cb2)]" and "d1 \<le> d2" and "d2 \<le> t"
  shows "advance t s = fire_timer cb2 (fire_timer cb1 (s\<lparr> timers := [] \<rparr>))"
  using assms by (simp add: advance_def)

text \<open>
  Claim C4 (return to the overview). The two listeners do not accept the same states:
  the \<open>keydown\<close> listener returns to the overview in \<open>FOCUS\<close> and in \<open>TRANSITION\<close>, the
  \<open>contextmenu\<close> listener only in \<open>FOCUS\<close>. After a focus request at time 0, a right-click
  at 500 ms changes nothing: the transition completes in \<open>FOCUS\<close> and the perturbation of
  the body stays enabled. The Escape key at 500 ms does start the return, but the timer
  of the focus request is still pending and the selected body is not cleared before
  the return's own timer runs: at 1200 ms the state becomes \<open>FOCUS\<close> and the focus on the
  body is reported, with its perturbation disabled and the camera on its way back; the
  state becomes \<open>GLOBAL\<close> at 1700 ms.
\<close>

theorem right_click_in_transition_ignored:
  "ic_state (snd (focusOnBody (Some 0) 0 demo_controller)) = TRANSITION \<and>
   onContextMenu 500 (snd (focusOnBody (Some 0) 0 demo_controller))
     = snd (focusOnBody (Some 0) 0 demo_controller) \<and>
   ic_state (advance 1700 (onContextMenu 500 (snd (focusOnBody (Some 0) 0 demo_controller))))
     = FOCUS \<and>
   notifications (advance 1700 (onContextMenu 500 (snd (focusOnBody (Some 0) 0 demo_controller))))
     = [StateChange TRANSITION (Some 0), StateChange FOCUS (Some 0)] \<and>
   perturbStrength
     (bodies (advance 1700 (onContextMenu 500 (snd (focusOnBody (Some 0) 0 demo_controller)))) 0)
     = 0.15 \<and>
   onKeyDown ''Escape'' 500 (snd (focusOnBody (Some 0) 0 demo_controller))
     = returnToGlobal 500 (snd (focusOnBody (Some 0) 0 demo_controller)) \<and>
   ic_state (onKeyDown ''Escape'' 500 (snd (focusOnBody (Some 0) 0 demo_controller)))
     = TRANSITION \<and>
   ic_state (advance 1200 (onKeyDown ''Escape'' 500 (snd (focusOnBody (Some 0) 0 demo_controller))))
     = FOCUS \<and>
   selectedBody
     (advance 1200 (onKeyDown ''Escape'' 500 (snd (focusOnBody (Some 0) 0 demo_controller))))
     = Some 0 \<and>
   notifications
     (advance 1200 (onKeyDown ''Escape'' 500 (snd (focusOnBody (Some 0) 0 demo_controller))))
     = [StateChange TRANSITION (Some 0), StateChange TRANSITION None, StateChange FOCUS (Some 0)] \<and>
   perturbStrength
     (bodies (advance 1200 (onKeyDown ''Escape'' 500 (snd (focusOnBody (Some 0) 0 demo_controller)))) 0)
     = 0 \<and>
   ic_state (advance 1700 (onKeyDown ''Escape'' 500 (snd (focusOnBody (Some 0) 0 demo_controller))))
     = GLOBAL \<and>
   notifications
     (advance 1700 (onKeyDown ''Escape'' 500 (snd (focusOnBody (Some 0) 0 demo_controller))))
     = [StateChange TRANSITION (Some 0), StateChange TRANSITION None, StateChange FOCUS (Some 0),
        StateChange GLOBAL None]"
proof -
  let ?s1 = "snd (focusOnBody (Some 0) 0 demo_controller)"
  let ?e = "returnToGlobal 500 ?s1"
  have d: "onStateChange demo_controller" "notifications demo_controller = []"
    "timers demo_controller = []" "hasSetPerturbation (bodies demo_controller 0)"
    "\<not> onBodySelect demo_controller"
    by (simp_all add: demo_controller_def new_InteractionController_def demo_heap_def planet_def)
  have st: "ic_state ?s1 = TRANSITION" by (simp add: focusOnBody_Some)
  then have rc: "onContextMenu 500 ?s1 = ?s1" by (simp add: onContextMenu_def)
  have tm: "timers ?s1 = [(1200, FocusTimeout 0)]" by (simp add: focusOnBody_Some d)
  have adv: "advance 1700 ?s1 = fire_timer (FocusTimeout 0) (?s1\<lparr> timers := [] \<rparr>)"
    by (rule advance_single[OF tm]) simp
  have f: "ic_state (advance 1700 ?s1) = FOCUS"
    "notifications (advance 1700 ?s1) = [StateChange TRANSITION (Some 0), StateChange FOCUS (Some 0)]"
    unfolding adv
    by (simp_all add: focusOnBody_Some d call_onStateChange_def call_onBodySelect_def)
  have p: "perturbStrength (bodies (advance 1700 ?s1) 0) = 0.15"
    by (simp add: advance_bodies focusOnBody_bodies d setPerturbation_def Let_def)
  have k: "onKeyDown ''Escape'' 500 ?s1 = ?e" using st by (simp add: onKeyDown_def)
  have es: "ic_state ?e = TRANSITION" "selectedBody ?e = Some 0"
    "notifications ?e = [StateChange TRANSITION (Some 0), StateChange TRANSITION None]"
    "timers ?e = [(1200, FocusTimeout 0), (1700, GlobalTimeout)]"
    "onStateChange ?e" "\<not> onBodySelect ?e"
    by (simp_all add: returnToGlobal_fields focusOnBody_Some d returnToGlobal_def Let_def
          call_onStateChange_def setTimeout_def)
  have a12: "advance 1200 ?e = fire_timer (FocusTimeout 0) (?e\<lparr> timers := [(1700, GlobalTimeout)] \<rparr>)"
    by (simp add: advance_def es(4) del: fire_timer.simps)
  have a17: "advance 1700 ?e = fire_timer GlobalTimeout (fire_timer (FocusTimeout 0) (?e\<lparr> timers := [] \<rparr>))"
    by (rule advance_pair[OF es(4)]) simp_all
  have g: "ic_state (advance 1200 ?e) = FOCUS" "selectedBody (advance 1200 ?e) = Some 0"
    "notifications (advance 1200 ?e)
       = [StateChange TRANSITION (Some 0), StateChange TRANSITION None, StateChange FOCUS (Some 0)]"
    unfolding a12 using es by (simp_all add: call_onStateChange_def call_onBodySelect_def)
  have pe: "perturbStrength (bodies (advance 1200 ?e) 0) = 0"
    by (simp add: advance_bodies returnToGlobal_bodies focusOnBody_Some focusOnBody_bodies d
          setPerturbation_def Let_def)
  have h: "ic_state (advance 1700 ?e) = GLOBAL"
    "notifications (advance 1700 ?e)
       = [StateChange TRANSITION (Some 0), StateChange TRANSITION None, StateChange FOCUS (Some 0),
          StateChange GLOBAL None]"
    unfolding a17 using es by (simp_all add: call_onStateChange_def call_onBodySelect_def)
  from st rc f p es(1) g pe h show ?thesis by (simp only: rc k)
qed

lemma onClick_outside_overview:
  "ic_state s \<noteq> GLOBAL \<Longrightarrow> onClick hits now s = (None, s)"
  by (simp add: onClick_def)

lemma fire_FocusTimeout_other:
  "selectedBody s \<noteq> Some a \<Longrightarrow> fire_timer (FocusTimeout a) s = s"
  by simp

lemma fire_FocusTimeout_same:
  "selectedBody s = Some b \<Longrightarrow>
   ic_state (fire_timer (FocusTimeout b) s) = FOCUS \<and>
   selectedBody (fire_timer (FocusTimeout b) s) = Some b \<and>
   timers (fire_timer (FocusTimeout b) s) = timers s \<and>
   notifications (fire_timer (FocusTimeout b) s) =
     notifications s @ (if onStateChange s then [StateChange FOCUS (Some b)] else [])
       @ (if onBodySelect s then [BodySelect b] else [])"
  by (simp add: call_onStateChange_def call_onBodySelect_def)

lemma fire_timer_guard:
  assumes ab: "a \<noteq> b"
    and sel: "selectedBody x = Some b \<or> selectedBody x = None"
    and foc: "ic_state x = FOCUS \<longrightarrow> selectedBody x = Some b"
  shows "(selectedBody (fire_timer cb x) = Some b \<or> selectedBody (fire_timer cb x) = None) \<and>
         (ic_state (fire_timer cb x) = FOCUS \<longrightarrow> selectedBody (fire_timer cb x) = Some b) \<and>
         (\<exists>ns. notifications (fire_timer cb x) = notifications x @ ns \<and>
               list_all (\<lambda>n. \<not> reports a n) ns)"
proof (cases cb)
  case (FocusTimeout c)
  show ?thesis
  proof (cases "selectedBody x = Some c")
    case True
    with sel have cb: "c = b" by auto
    have "notifications (fire_timer cb x) = notifications x @
            ((if onStateChange x then [StateChange FOCUS (Some b)] else [])
              @ (if onBodySelect x then [BodySelect b] else []))"
      using True by (simp add: FocusTimeout cb call_onStateChange_def call_onBodySelect_def)
    moreover have "list_all (\<lambda>n. \<not> reports a n)
            ((if onStateChange x then [StateChange FOCUS (Some b)] else [])
              @ (if onBodySelect x then [BodySelect b] else []))"
      using ab by auto
    ultimately have "\<exists>ns. notifications (fire_timer cb x) = notifications x @ ns \<and>
               list_all (\<lambda>n. \<not> reports a n) ns"
      by blast
    moreover have "selectedBody (fire_timer cb x) = Some b"
      using True by (simp add: FocusTimeout cb call_onStateChange_def call_onBodySelect_def)
    ultimately show ?thesis by simp
  next
    case False
    then have "fire_timer cb x = x" by (simp add: FocusTimeout)
    with sel foc show ?thesis by simp
  qed
next
  case GlobalTimeout
  have "notifications (fire_timer cb x) = notifications x @
          (if onStateChange x then [StateChange GLOBAL None] else [])"
    by (simp add: GlobalTimeout call_onStateChange_def)
  moreover have "list_all (\<lambda>n. \<not> reports a n)
          (if onStateChange x then [StateChange GLOBAL None] else [])"
    by simp
  ultimately have "\<exists>ns. notifications (fire_timer cb x) = notifications x @ ns \<and>
               list_all (\<lambda>n. \<not> reports a n) ns"
    by blast
  moreover have "selectedBody (fire_timer cb x) = None" "ic_state (fire_timer cb x) = GLOBAL"
    by (simp_all add: GlobalTimeout call_onStateChange_def)
  ultimately show ?thesis by simp
qed

lemma fold_fire_timer_guard:
  assumes ab: "a \<noteq> b"
  shows "(selectedBody x = Some b \<or> selectedBody x = None) \<Longrightarrow>
         (ic_state x = FOCUS \<longrightarrow> selectedBody x = Some b) \<Longrightarrow>
         (selectedBody (fold fire_timer cbs x) = Some b \<or>
            selectedBody (fold fire_timer cbs x) = None) \<and>
         (ic_state (fold fire_timer cbs x) = FOCUS \<longrightarrow>
            selectedBody (fold fire_timer cbs x) = Some b) \<and>
         (\<exists>ns. notifications (fold fire_timer cbs x) = notifications x @ ns \<and>
               list_all (\<lambda>n. \<not> reports a n) ns)"
proof (induction cbs arbitrary: x)
  case Nil
  then show ?case by simp
next
  case (Cons cb cbs)
  from fire_timer_guard[OF ab Cons.prems, of cb]
  obtain ns1 where s1: "selectedBody (fire_timer cb x) = Some b \<or> selectedBody (fire_timer cb x) = None"
    and f1: "ic_state (fire_timer cb x) = FOCUS \<longrightarrow> selectedBody (fire_timer cb x) = Some b"
    and n1: "notifications (fire_timer cb x) = notifications x @ ns1"
    and l1: "list_all (\<lambda>n. \<not> reports a n) ns1"
    by blast
  from Cons.IH[OF s1 f1]
  obtain ns2 where s2: "selectedBody (fold fire_timer cbs (fire_timer cb x)) = Some b \<or>
            selectedBody (fold fire_timer cbs (fire_timer cb x)) = None"
    and f2: "ic_state (fold fire_timer cbs (fire_timer cb x)) = FOCUS \<longrightarrow>
            selectedBody (fold fire_timer cbs (fire_timer cb x)) = Some b"
    and n2: "notifications (fold fire_timer cbs (fire_timer cb x)) =
              notifications (fire_timer cb x) @ ns2"
    and l2: "list_all (\<lambda>n. \<not> reports a n) ns2"
    by blast
  have "notifications (fold fire_timer (cb # cbs) x) = notifications x @ (ns1 @ ns2)"
    by (simp add: n1 n2 del: fire_timer.simps)
  moreover have "list_all (\<lambda>n. \<not> reports a n) (ns1 @ ns2)" using l1 l2 by simp
  ultimately have "\<exists>ns. notifications (fold fire_timer (cb # cbs) x) = notifications x @ ns \<and>
               list_all (\<lambda>n. \<not> reports a n) ns"
    by blast
  with s2 f2 show ?case by (simp del: fire_timer.simps)
qed

lemma advance_guard:
  assumes "a \<noteq> b" and "selectedBody x = Some b"
  shows "selectedBody (advance t x) \<noteq> Some a \<and>
         (ic_state (advance t x) = FOCUS \<longrightarrow> selectedBody (advance t x) = Some b) \<and>
         (\<exists>ns. notifications (advance t x) = notifications x @ ns \<and>
               list_all (\<lambda>n. \<not> reports a n) ns)"
proof -
  let ?x0 = "x\<lparr> timers := filter (\<lambda>p. \<not> fst p \<le> t) (timers x) \<rparr>"
  let ?cbs = "map snd (sort_key fst (filter (\<lambda>p. fst p \<le> t) (timers x)))"
  have a: "advance t x = fold fire_timer ?cbs ?x0" by (simp add: advance_def)
  have s0: "selectedBody ?x0 = Some b \<or> selectedBody ?x0 = None" using assms(2) by simp
  have f0: "ic_state ?x0 = FOCUS \<longrightarrow> selectedBody ?x0 = Some b" using assms(2) by simp
  from fold_fire_timer_guard[OF assms(1) s0 f0, of ?cbs]
  obtain ns where s: "selectedBody (advance t x) = Some b \<or> selectedBody (advance t x) = None"
    and f: "ic_state (advance t x) = FOCUS \<longrightarrow> selectedBody (advance t x) = Some b"
    and n: "notifications (advance t x) = notifications ?x0 @ ns"
    and l: "list_all (\<lambda>n. \<not> reports a n) ns"
    unfolding a by blast
  from n have "notifications (advance t x) = notifications x @ ns" by simp
  with s f l assms(1) show ?thesis by auto
qed

text \<open>
  Claim C1 (superseded transition). Let a focus request for \<open>a\<close> be followed by one for
  a different body \<open>b\<close>. Whatever the state of the controller, the second request is
  accepted: it raises nothing, the state is \<open>TRANSITION\<close> and \<open>b\<close> is selected; the
  completion callback of the first request, run on that state, changes nothing. However
  far the event loop then advances, \<open>a\<close> is not selected, a state of \<open>FOCUS\<close> has \<open>b\<close>
  selected, and no notification issued from the second request on names \<open>a\<close>. When
  no timer was pending at the first request and the second comes before the first has
  completed, then once 1200 ms have passed since the second request the state is
  \<open>FOCUS\<close> with \<open>b\<close> selected, and the notifications issued since the first request
  are the state change to \<open>TRANSITION\<close> for \<open>b\<close>, the state change to \<open>FOCUS\<close> for \<open>b\<close>
  and the selection of \<open>b\<close>.
\<close>

theorem superseded_transition_guard:
  assumes "a \<noteq> b"
  shows
  "fst (refocus a t0 b t1 s) = None \<and>
   ic_state (snd (refocus a t0 b t1 s)) = TRANSITION \<and>
   selectedBody (snd (refocus a t0 b t1 s)) = Some b \<and>
   fire_timer (FocusTimeout a) (snd (refocus a t0 b t1 s)) = snd (refocus a t0 b t1 s) \<and>
   selectedBody (advance t (snd (refocus a t0 b t1 s))) \<noteq> Some a \<and>
   (ic_state (advance t (snd (refocus a t0 b t1 s))) = FOCUS \<longrightarrow>
      selectedBody (advance t (snd (refocus a t0 b t1 s))) = Some b) \<and>
   list_all (\<lambda>n. \<not> reports a n)
     (drop (length (notifications (advance t1 (snd (focusOnBody (Some a) t0 s)))))
        (notifications (advance t (snd (refocus a t0 b t1 s))))) \<and>
   (timers s = [] \<and> t0 \<le> t1 \<and> t1 < t0 + 1200 \<and> t1 + 1200 \<le> t \<longrightarrow>
      advance t1 (snd (focusOnBody (Some a) t0 s)) = snd (focusOnBody (Some a) t0 s) \<and>
      timers (snd (refocus a t0 b t1 s))
        = [(t0 + 1200, FocusTimeout a), (t1 + 1200, FocusTimeout b)] \<and>
      ic_state (advance t (snd (refocus a t0 b t1 s))) = FOCUS \<and>
      selectedBody (advance t (snd (refocus a t0 b t1 s))) = Some b \<and>
      timers (advance t (snd (refocus a t0 b t1 s))) = [] \<and>
      notifications (advance t (snd (refocus a t0 b t1 s))) =
        notifications (snd (focusOnBody (Some a) t0 s))
          @ (if onStateChange s
             then [StateChange TRANSITION (Some b), StateChange FOCUS (Some b)] else [])
          @ (if onBodySelect s then [BodySelect b] else []))"
proof -
  let ?s1 = "snd (focusOnBody (Some a) t0 s)"
  let ?p = "advance t1 ?s1"
  let ?s2 = "snd (refocus a t0 b t1 s)"
  let ?s3 = "advance t ?s2"
  have r: "refocus a t0 b t1 s = focusOnBody (Some b) t1 ?p"
    by (simp add: refocus_def)
  have acc: "fst (refocus a t0 b t1 s) = None" "ic_state ?s2 = TRANSITION"
    "selectedBody ?s2 = Some b"
    by (simp_all add: r focusOnBody_Some)
  have noop: "fire_timer (FocusTimeout a) ?s2 = ?s2"
    by (rule fire_FocusTimeout_other) (use assms in \<open>simp add: acc\<close>)
  from advance_guard[OF assms acc(3), of t]
  obtain ns where g: "selectedBody ?s3 \<noteq> Some a"
    "ic_state ?s3 = FOCUS \<longrightarrow> selectedBody ?s3 = Some b"
    and ns: "notifications ?s3 = notifications ?s2 @ ns"
    and l: "list_all (\<lambda>n. \<not> reports a n) ns"
    by blast
  have n2: "notifications ?s2 = notifications ?p
      @ (if onStateChange ?p then [StateChange TRANSITION (Some b)] else [])"
    by (simp add: r focusOnBody_Some)
  have rb: "list_all (\<lambda>n. \<not> reports a n)
      (if onStateChange ?p then [StateChange TRANSITION (Some b)] else [])"
    using assms by auto
  have "drop (length (notifications ?p)) (notifications ?s3) =
        (if onStateChange ?p then [StateChange TRANSITION (Some b)] else []) @ ns"
    by (simp add: ns n2)
  with l rb have safe: "list_all (\<lambda>n. \<not> reports a n)
     (drop (length (notifications ?p)) (notifications ?s3))"
    by simp
  have live: "advance t1 ?s1 = ?s1 \<and>
      timers ?s2 = [(t0 + 1200, FocusTimeout a), (t1 + 1200, FocusTimeout b)] \<and>
      ic_state ?s3 = FOCUS \<and> selectedBody ?s3 = Some b \<and> timers ?s3 = [] \<and>
      notifications ?s3 = notifications ?s1
          @ (if onStateChange s
             then [StateChange TRANSITION (Some b), StateChange FOCUS (Some b)] else [])
          @ (if onBodySelect s then [BodySelect b] else [])"
    if q: "timers s = [] \<and> t0 \<le> t1 \<and> t1 < t0 + 1200 \<and> t1 + 1200 \<le> t"
  proof -
    have t1: "timers ?s1 = [(t0 + 1200, FocusTimeout a)]"
      using q by (simp add: focusOnBody_Some)
    have idle: "advance t1 ?s1 = ?s1"
      by (rule advance_nothing_due) (use q in \<open>simp add: t1\<close>)
    have r': "refocus a t0 b t1 s = focusOnBody (Some b) t1 ?s1"
      by (simp add: refocus_def idle)
    have t2: "timers ?s2 = [(t0 + 1200, FocusTimeout a), (t1 + 1200, FocusTimeout b)]"
      using q by (simp add: r' focusOnBody_Some)
    have fl: "onStateChange ?s2 = onStateChange s" "onBodySelect ?s2 = onBodySelect s"
      by (simp_all add: r' focusOnBody_Some)
    have n2': "notifications ?s2 = notifications ?s1
        @ (if onStateChange s then [StateChange TRANSITION (Some b)] else [])"
      by (simp add: r' focusOnBody_Some)
    have noop': "fire_timer (FocusTimeout a) (?s2\<lparr> timers := [] \<rparr>) = ?s2\<lparr> timers := [] \<rparr>"
      by (rule fire_FocusTimeout_other) (use assms in \<open>simp add: acc\<close>)
    have "advance t ?s2 =
        fire_timer (FocusTimeout b) (fire_timer (FocusTimeout a) (?s2\<lparr> timers := [] \<rparr>))"
      by (rule advance_pair[OF t2]) (use q in simp_all)
    then have adv: "?s3 = fire_timer (FocusTimeout b) (?s2\<lparr> timers := [] \<rparr>)"
      by (simp only: noop')
    have sel: "selectedBody (?s2\<lparr> timers := [] \<rparr>) = Some b" by (simp add: acc)
    note fin = fire_FocusTimeout_same[OF sel]
    have c: "ic_state ?s3 = FOCUS" "selectedBody ?s3 = Some b" "timers ?s3 = []"
      unfolding adv using fin by simp_all
    have n3: "notifications ?s3 = notifications ?s1
         @ (if onStateChange s
            then [StateChange TRANSITION (Some b), StateChange FOCUS (Some b)] else [])
         @ (if onBodySelect s then [BodySelect b] else [])"
      unfolding adv using fin by (simp add: n2' fl)
    from idle t2 c n3 show ?thesis by blast
  qed
  from acc noop g safe live show ?thesis by blast
qed

theorem superseded_transition_guard_witness:
  "(0::nat) \<noteq> 1 \<and> timers demo_controller = [] \<and> (0::real) \<le> 500 \<and> (500::real) < 0 + 1200 \<and>
   (500::real) + 1200 \<le> 1700 \<and>
   fst (refocus 0 0 1 500 demo_controller) = None \<and>
   selectedBody (snd (refocus 0 0 1 500 demo_controller)) = Some 1 \<and>
   ic_state (advance 1700 (snd (refocus 0 0 1 500 demo_controller))) = FOCUS \<and>
   selectedBody (advance 1700 (snd (refocus 0 0 1 500 demo_controller))) = Some 1 \<and>
   notifications (advance 1700 (snd (refocus 0 0 1 500 demo_controller))) =
     [StateChange TRANSITION (Some 0), StateChange TRANSITION (Some 1), StateChange FOCUS (Some 1)]"
proof -
  have ne: "(0::nat) \<noteq> 1" by simp
  have h: "timers demo_controller = [] \<and> (0::real) \<le> 500 \<and>
    (500::real) < 0 + 1200 \<and> (500::real) + 1200 \<le> 1700"
    by (simp add: demo_controller_def new_InteractionController_def)
  have d: "onStateChange demo_controller" "\<not> onBodySelect demo_controller"
    "notifications demo_controller = []"
    by (simp_all add: demo_controller_def new_InteractionController_def)
  from superseded_transition_guard[OF ne, of 0 500 demo_controller 1700] h
  have a: "fst (refocus 0 0 1 500 demo_controller) = None"
    and b: "selectedBody (snd (refocus 0 0 1 500 demo_controller)) = Some 1"
    and c: "ic_state (advance 1700 (snd (refocus 0 0 1 500 demo_controller))) = FOCUS"
    and e: "selectedBody (advance 1700 (snd (refocus 0 0 1 500 demo_controller))) = Some 1"
    and n: "notifications (advance 1700 (snd (refocus 0 0 1 500 demo_controller))) =
     notifications (snd (focusOnBody (Some 0) 0 demo_controller))
       @ (if onStateChange demo_controller
          then [StateChange TRANSITION (Some 1), StateChange FOCUS (Some 1)] else [])
       @ (if onBodySelect demo_controller then [BodySelect 1] else [])"
    by blast+
  have n': "notifications (advance 1700 (snd (refocus 0 0 1 500 demo_controller))) =
     [StateChange TRANSITION (Some 0), StateChange TRANSITION (Some 1), StateChange FOCUS (Some 1)]"
    unfolding n by (simp add: focusOnBody_Some d)
  from ne h a b c e n' show ?thesis by simp
qed

end
